theory Spec2Isabelle
  imports Main "HOL-Library.Word"
begin

section \<open>The two data models\<close>

text \<open>
  \<^verbatim>\<open>sweep.c\<close> is an Emacs dynamic module that embeds a Prolog engine. It moves data
  between the engine's terms (reached through \<^verbatim>\<open>term_t\<close> references) and the host's
  values (\<^verbatim>\<open>emacs_value\<close>), and it drives one engine query at a time.

  The engine and the host are libraries outside the repository; what the bridge sees of
  them is their C interface. A term is modelled by the shape the interface can tell
  apart with \<^verbatim>\<open>PL_term_type\<close>; \<open>Opaque k\<close> is a term whose type code \<open>k\<close> is none of
  those the switch of \<^verbatim>\<open>term_to_value\<close> lists. The engine's integers are unbounded
  (\<^verbatim>\<open>PL_term_type\<close> answers \<^verbatim>\<open>PL_INTEGER\<close> for all of them); the bridge reads and writes
  them through an \<^verbatim>\<open>int64_t\<close>. Text is a sequence of bytes.
\<close>

type_synonym term_t = nat

datatype Term =
    Variable
  | Atom string
  | PString string
  | PInteger int
  | PFloat
  | PNil
  | ListPair Term Term
  | Compound string "Term list"
  | Dict
  | Blob
  | Opaque nat

datatype term_type =
    PL_VARIABLE | PL_ATOM | PL_STRING | PL_NIL | PL_LIST_PAIR | PL_INTEGER
  | PL_TERM | PL_DICT | PL_BLOB | PL_FLOAT | PL_UNKNOWN nat

fun PL_term_type :: "Term \<Rightarrow> term_type" where
  "PL_term_type Variable = PL_VARIABLE"
| "PL_term_type (Atom s) = PL_ATOM"
| "PL_term_type (PString s) = PL_STRING"
| "PL_term_type (PInteger i) = PL_INTEGER"
| "PL_term_type PFloat = PL_FLOAT"
| "PL_term_type PNil = PL_NIL"
| "PL_term_type (ListPair ph_term pt_term) = PL_LIST_PAIR"
| "PL_term_type (Compound f args) = PL_TERM"
| "PL_term_type Dict = PL_DICT"
| "PL_term_type Blob = PL_BLOB"
| "PL_term_type (Opaque k) = PL_UNKNOWN k"

text \<open>
  A host value is a symbol, a string, an integer or a cons cell. The host's \<open>nil\<close> and
  \<open>t\<close> are the symbols of these names (\<^verbatim>\<open>enil\<close> and \<^verbatim>\<open>et\<close> intern them). An
  integer is what \<^verbatim>\<open>extract_integer\<close> and \<^verbatim>\<open>make_integer\<close> move: an \<^verbatim>\<open>intmax_t\<close>, of
  64 bits. An \<^verbatim>\<open>emacs_value\<close> is a pointer: \<open>None\<close> is \<^verbatim>\<open>NULL\<close>.
\<close>

datatype Value =
    ESymbol string
  | EString string
  | EInteger "64 word"
  | ECons Value Value

type_synonym emacs_value = "Value option"

section \<open>The runtime the conversions run in\<close>

text \<open>
  The conversions have three effects: they signal host errors (\<^verbatim>\<open>ethrow\<close>), they
  allocate and free C buffers, and they create and fill term references.
  \<^item> \<open>signalled\<close>: the messages passed to \<^verbatim>\<open>ethrow\<close>, oldest first;
  \<^item> \<open>can_alloc n\<close>: whether \<^verbatim>\<open>malloc(n)\<close> returns a buffer;
  \<^item> \<open>live\<close>: the sizes of the buffers allocated and not yet freed;
  \<^item> \<open>term_store\<close>, \<open>next_ref\<close>: the term each reference denotes, and the next fresh
    reference.
\<close>

record runtime =
  signalled :: "string list"
  can_alloc :: "nat \<Rightarrow> bool"
  live :: "nat list"
  term_store :: "term_t \<Rightarrow> Term"
  next_ref :: term_t

definition ethrow :: "string \<Rightarrow> runtime \<Rightarrow> runtime" where
  "ethrow message r = r\<lparr>signalled := signalled r @ [message]\<rparr>"

definition malloc :: "nat \<Rightarrow> runtime \<Rightarrow> bool \<times> runtime" where
  "malloc n r = (if can_alloc r n then (True, r\<lparr>live := n # live r\<rparr>) else (False, r))"

definition free :: "nat \<Rightarrow> runtime \<Rightarrow> runtime" where
  "free n r = r\<lparr>live := remove1 n (live r)\<rparr>"

subsection \<open>The host interface\<close>

definition intern :: "string \<Rightarrow> emacs_value" where
  "intern name = Some (ESymbol name)"

definition enil :: emacs_value where
  "enil = intern ''nil''"

definition et :: emacs_value where
  "et = intern ''t''"

definition make_string :: "string \<Rightarrow> nat \<Rightarrow> emacs_value" where
  "make_string chars len = Some (EString (take len chars))"

definition make_integer :: "64 word \<Rightarrow> emacs_value" where
  "make_integer l = Some (EInteger l)"

text \<open>
  \<^verbatim>\<open>econs\<close> and the \<open>list\<close> call go through the host's \<^verbatim>\<open>funcall\<close>. The conversions
  hand them a \<^verbatim>\<open>NULL\<close> argument in two situations. After \<^verbatim>\<open>ethrow\<close> a signal is pending,
  and with a signal pending the host's functions return \<^verbatim>\<open>NULL\<close>. After
  \<^verbatim>\<open>term_to_value_integer\<close> could not read an integer nothing is pending, and the host's
  interface leaves a call with a \<^verbatim>\<open>NULL\<close> argument undefined; the functions below return
  \<^verbatim>\<open>NULL\<close> there as well. The statements below that a conversion does return a value
  are about terms whose integers can be read (\<open>int64_term\<close>); for these a \<^verbatim>\<open>NULL\<close>
  result comes with a signal (\<open>conversion_result_int64\<close>, \<open>term_to_value_signalled\<close>).
\<close>

fun econs :: "emacs_value \<Rightarrow> emacs_value \<Rightarrow> emacs_value" where
  "econs (Some car) (Some cdr) = Some (ECons car cdr)"
| "econs _ _ = None"

fun elist :: "Value list \<Rightarrow> Value" where
  "elist [] = ESymbol ''nil''"
| "elist (v # vs) = ECons v (elist vs)"

definition funcall_list :: "emacs_value list \<Rightarrow> emacs_value" where
  "funcall_list vals = (if list_all (\<lambda>v. v \<noteq> None) vals then Some (elist (map the vals)) else None)"

definition is_not_nil :: "Value \<Rightarrow> bool" where
  "is_not_nil v = (v \<noteq> ESymbol ''nil'')"

fun type_of :: "Value \<Rightarrow> string" where
  "type_of (ESymbol n) = ''symbol''"
| "type_of (EString s) = ''string''"
| "type_of (EInteger i) = ''integer''"
| "type_of (ECons a d) = ''cons''"

fun extract_integer :: "Value \<Rightarrow> 64 word" where
  "extract_integer (EInteger i) = i"
| "extract_integer _ = 0"

text \<open>
  \<^verbatim>\<open>copy_string_contents\<close> delivers the bytes of a string followed by one terminating
  zero byte, and nothing for a value that is not a string. Called without a buffer it
  stores the number of bytes it would write; called with a buffer of \<open>len\<close> bytes (which
  \<^verbatim>\<open>estring_to_cstring\<close> has zeroed) it fills it when it is large enough.
\<close>

fun string_bytes :: "Value \<Rightarrow> string option" where
  "string_bytes (EString s) = Some (s @ [CHR 0x00])"
| "string_bytes _ = None"

definition copy_string_contents_probe :: "Value \<Rightarrow> int option" where
  "copy_string_contents_probe v = map_option (\<lambda>bs. int (length bs)) (string_bytes v)"

definition copy_string_contents :: "Value \<Rightarrow> int \<Rightarrow> string option" where
  "copy_string_contents v len =
     (case string_bytes v of
        None \<Rightarrow> None
      | Some bs \<Rightarrow>
          if int (length bs) \<le> len
          then Some (bs @ replicate (nat len - length bs) (CHR 0x00))
          else None)"

subsection \<open>The engine's term interface\<close>

text \<open>
  A fresh reference denotes an unbound variable. The \<^verbatim>\<open>PL_put_*\<close> functions and
  \<^verbatim>\<open>PL_cons_list\<close> write a term into a reference and return \<^verbatim>\<open>TRUE\<close> (1); the engine
  running out of memory in them is not modelled.
\<close>

definition PL_new_term_ref :: "runtime \<Rightarrow> term_t \<times> runtime" where
  "PL_new_term_ref r =
     (next_ref r, r\<lparr>term_store := (term_store r)(next_ref r := Variable), next_ref := Suc (next_ref r)\<rparr>)"

definition put_term :: "term_t \<Rightarrow> Term \<Rightarrow> runtime \<Rightarrow> runtime" where
  "put_term t x r = r\<lparr>term_store := (term_store r)(t := x)\<rparr>"

definition PL_put_string_nchars :: "term_t \<Rightarrow> nat \<Rightarrow> string \<Rightarrow> runtime \<Rightarrow> int \<times> runtime" where
  "PL_put_string_nchars t len chars r = (1, put_term t (PString (take len chars)) r)"

definition PL_put_int64 :: "term_t \<Rightarrow> 64 word \<Rightarrow> runtime \<Rightarrow> int \<times> runtime" where
  "PL_put_int64 t i r = (1, put_term t (PInteger (sint i)) r)"

definition PL_put_nil :: "term_t \<Rightarrow> runtime \<Rightarrow> int \<times> runtime" where
  "PL_put_nil t r = (1, put_term t PNil r)"

definition PL_cons_list :: "term_t \<Rightarrow> term_t \<Rightarrow> term_t \<Rightarrow> runtime \<Rightarrow> int \<times> runtime" where
  "PL_cons_list l h t r = (1, put_term l (ListPair (term_store r h) (term_store r t)) r)"

text \<open>
  \<^verbatim>\<open>PL_get_int64\<close> stores the integer a term is in an \<^verbatim>\<open>int64_t\<close> and returns \<^verbatim>\<open>TRUE\<close>
  when the integer fits; it returns \<^verbatim>\<open>FALSE\<close> (\<open>None\<close>) for an integer outside the
  range of \<^verbatim>\<open>int64_t\<close> and for a term that is no integer.
\<close>

definition PL_get_int64 :: "Term \<Rightarrow> 64 word option" where
  "PL_get_int64 t =
     (case t of
        PInteger i \<Rightarrow> if - (2 ^ 63) \<le> i \<and> i < 2 ^ 63 then Some (word_of_int i) else None
      | _ \<Rightarrow> None)"

section \<open>String transfer\<close>

text \<open>
  \<^verbatim>\<open>estring_to_cstring\<close> returns the buffer and the length stored through \<^verbatim>\<open>len_p\<close>, or
  \<^verbatim>\<open>NULL\<close> (\<open>None\<close>) after signalling.
\<close>

definition estring_to_cstring :: "Value \<Rightarrow> runtime \<Rightarrow> (string \<times> int) option \<times> runtime" where
  "estring_to_cstring estring r =
     (case copy_string_contents_probe estring of
        None \<Rightarrow> (None, ethrow ''Failed to get string length'' r)
      | Some len \<Rightarrow>
          (case malloc (nat len) r of
             (False, r1) \<Rightarrow> (None, ethrow ''malloc failed'' r1)
           | (True, r1) \<Rightarrow>
               (case copy_string_contents estring len of
                  None \<Rightarrow> (None, free (nat len) (ethrow ''Failed to copy string contents'' r1))
                | Some buf \<Rightarrow> (Some (buf, len), r1))))"

definition estring_to_pstring :: "Value \<Rightarrow> term_t \<Rightarrow> runtime \<Rightarrow> int \<times> runtime" where
  "estring_to_pstring estring t r =
     (case estring_to_cstring estring r of
        (None, r1) \<Rightarrow> (- 1, r1)
      | (Some (buf, len), r1) \<Rightarrow>
          (case PL_put_string_nchars t (nat (len - 1)) buf r1 of
             (i, r2) \<Rightarrow> (i, free (nat len) r2)))"

section \<open>Term to value\<close>

text \<open>
  \<^verbatim>\<open>term_to_value_integer\<close> returns \<^verbatim>\<open>NULL\<close>, and signals nothing, when \<^verbatim>\<open>PL_get_int64\<close>
  fails.
\<close>

definition term_to_value_integer :: "Term \<Rightarrow> runtime \<Rightarrow> emacs_value \<times> runtime" where
  "term_to_value_integer t r =
     (case PL_get_int64 t of Some l \<Rightarrow> (make_integer l, r) | None \<Rightarrow> (None, r))"

definition term_to_value_string :: "Term \<Rightarrow> runtime \<Rightarrow> emacs_value \<times> runtime" where
  "term_to_value_string t r =
     (case t of PString string \<Rightarrow> (make_string string (length string), r) | _ \<Rightarrow> (None, r))"

definition term_to_value_atom :: "Term \<Rightarrow> runtime \<Rightarrow> emacs_value \<times> runtime" where
  "term_to_value_atom t r =
     (case t of
        Atom string \<Rightarrow> (econs (intern ''atom'') (make_string string (length string)), r)
      | _ \<Rightarrow> (None, r))"

definition term_to_value_variable :: "Term \<Rightarrow> runtime \<Rightarrow> emacs_value \<times> runtime" where
  "term_to_value_variable t r = (intern ''variable'', r)"

definition term_to_value_dict :: "Term \<Rightarrow> runtime \<Rightarrow> emacs_value \<times> runtime" where
  "term_to_value_dict t r = (intern ''dict'', r)"

definition term_to_value_blob :: "Term \<Rightarrow> runtime \<Rightarrow> emacs_value \<times> runtime" where
  "term_to_value_blob t r = (intern ''blob'', r)"

definition term_to_value_float :: "Term \<Rightarrow> runtime \<Rightarrow> emacs_value \<times> runtime" where
  "term_to_value_float t r = (intern ''float'', r)"

text \<open>
  The argument array of \<^verbatim>\<open>term_to_value_compound\<close>: the number of bytes the code
  passes to \<^verbatim>\<open>malloc\<close> and to \<^verbatim>\<open>memset\<close>, for an element size \<open>sz\<close>, and the size of
  an \<^verbatim>\<open>emacs_value\<close> (a pointer) on a 64-bit platform.
\<close>

definition vals_bytes :: "nat \<Rightarrow> nat \<Rightarrow> nat" where
  "vals_bytes sz arity = sz * arity + 1"

definition sizeof_emacs_value :: nat where
  "sizeof_emacs_value = 8"

text \<open>
  \<^verbatim>\<open>term_to_value\<close> and its helpers for list pairs and compounds call each other. The
  recursion follows the term: \<^verbatim>\<open>PL_get_list\<close> and \<^verbatim>\<open>PL_get_arg\<close> store a subterm in a
  reference, and the recursive call converts that subterm. (The functions that read the
  subterm back through the reference, as the source does, are given further below,
  with the proof that they compute the same.)
  \<^item> \<open>term_to_value_list\<close>: the second equation is the branch of the source taken when
    \<^verbatim>\<open>PL_get_list\<close> fails. The two conversions are arguments of one call in the source;
    the head is converted first here.
  \<^item> \<open>term_to_value_compound\<close>: the argument array \<^verbatim>\<open>vals\<close> is the list of the values
    written into its slots: \<^verbatim>\<open>vals[0]\<close>, the functor name, and \<^verbatim>\<open>vals[1..arity]\<close>, which
    the loop \<open>term_to_value_args\<close> fills in order; the \<open>list\<close> call reads all
    \<open>arity + 1\<close> of them. The block allocated for the array is recorded in \<open>live\<close>; the
    source never frees it. The source ignores the result of
    \<^verbatim>\<open>PL_get_compound_name_arity\<close>; \<open>term_to_value\<close> calls the function on compounds
    only, and the second equation covers the other terms.
\<close>

function (sequential) term_to_value :: "Term \<Rightarrow> runtime \<Rightarrow> emacs_value \<times> runtime"
  and term_to_value_list :: "Term \<Rightarrow> runtime \<Rightarrow> emacs_value \<times> runtime"
  and term_to_value_compound :: "Term \<Rightarrow> runtime \<Rightarrow> emacs_value \<times> runtime"
  and term_to_value_args :: "term_t \<Rightarrow> Term list \<Rightarrow> runtime \<Rightarrow> emacs_value list \<times> runtime"
where
  "term_to_value t r =
     (case PL_term_type t of
        PL_VARIABLE \<Rightarrow> term_to_value_variable t r
      | PL_ATOM \<Rightarrow> term_to_value_atom t r
      | PL_STRING \<Rightarrow> term_to_value_string t r
      | PL_NIL \<Rightarrow> (enil, r)
      | PL_LIST_PAIR \<Rightarrow> term_to_value_list t r
      | PL_INTEGER \<Rightarrow> term_to_value_integer t r
      | PL_TERM \<Rightarrow> term_to_value_compound t r
      | PL_DICT \<Rightarrow> term_to_value_dict t r
      | PL_BLOB \<Rightarrow> term_to_value_blob t r
      | PL_FLOAT \<Rightarrow> term_to_value_blob t r
      | PL_UNKNOWN k \<Rightarrow> (intern ''unconvertable'', r))"
| "term_to_value_list (ListPair ph_term pt_term) r =
     (case PL_new_term_ref r of (ph, r1) \<Rightarrow>
     (case PL_new_term_ref r1 of (pt, r2) \<Rightarrow>
     (case term_to_value ph_term (put_term pt pt_term (put_term ph ph_term r2)) of (vh, r3) \<Rightarrow>
     (case term_to_value pt_term r3 of (vt, r4) \<Rightarrow>
        (econs vh vt, r4)))))"
| "term_to_value_list t r =
     (case PL_new_term_ref r of (ph, r1) \<Rightarrow>
     (case PL_new_term_ref r1 of (pt, r2) \<Rightarrow> (None, r2)))"
| "term_to_value_compound (Compound name args) r =
     (case PL_new_term_ref r of (arg, r1) \<Rightarrow>
     (case malloc (vals_bytes sizeof_emacs_value (length args)) r1 of
        (False, r2) \<Rightarrow> (None, ethrow ''malloc failed'' r2)
      | (True, r2) \<Rightarrow>
          (case term_to_value_args arg args r2 of (vals, r3) \<Rightarrow>
             (econs (intern ''compound'')
                (funcall_list (make_string name (length name) # vals)), r3))))"
| "term_to_value_compound t r =
     (case PL_new_term_ref r of (arg, r1) \<Rightarrow> (None, r1))"
| "term_to_value_args arg [] r = ([], r)"
| "term_to_value_args arg (a # as) r =
     (case term_to_value a (put_term arg a r) of (v, r1) \<Rightarrow>
     (case term_to_value_args arg as r1 of (vs, r2) \<Rightarrow> (v # vs, r2)))"
  by pat_completeness auto
termination
  by lexicographic_order

section \<open>Value to term\<close>

text \<open>
  The host's \<open>car\<close> and \<open>cdr\<close>, which \<^verbatim>\<open>ecar\<close> and \<^verbatim>\<open>ecdr\<close> call. The bridge calls
  them on a cons cell only; of \<open>nil\<close> they are \<open>nil\<close>.
\<close>

definition ecar :: "Value \<Rightarrow> Value" where
  "ecar v = (case v of ECons a d \<Rightarrow> a | _ \<Rightarrow> ESymbol ''nil'')"

definition ecdr :: "Value \<Rightarrow> Value" where
  "ecdr v = (case v of ECons a d \<Rightarrow> d | _ \<Rightarrow> ESymbol ''nil'')"

definition value_to_term_string :: "Value \<Rightarrow> term_t \<Rightarrow> runtime \<Rightarrow> int \<times> runtime" where
  "value_to_term_string v t r = estring_to_pstring v t r"

definition value_to_term_integer :: "Value \<Rightarrow> term_t \<Rightarrow> runtime \<Rightarrow> int \<times> runtime" where
  "value_to_term_integer v t r = (let l = extract_integer v in PL_put_int64 t l r)"

text \<open>
  \<^verbatim>\<open>value_to_term\<close> writes the term into the reference \<open>t\<close> and returns the code \<open>r\<close> of
  the source: negative for a failure.
\<close>

function value_to_term :: "Value \<Rightarrow> term_t \<Rightarrow> runtime \<Rightarrow> int \<times> runtime"
  and value_to_term_list :: "Value \<Rightarrow> term_t \<Rightarrow> runtime \<Rightarrow> int \<times> runtime"
where
  "value_to_term v t r =
     (if is_not_nil v then
        (if type_of v = ''string'' then value_to_term_string v t r
         else if type_of v = ''integer'' then value_to_term_integer v t r
         else if type_of v = ''cons'' then value_to_term_list v t r
         else (- 1, r))
      else PL_put_nil t r)"
| "value_to_term_list v t r =
     (case PL_new_term_ref r of (head, r1) \<Rightarrow>
     (case PL_new_term_ref r1 of (tail, r2) \<Rightarrow>
     (let car = ecar v; cdr = ecdr v in
     (case value_to_term car head r2 of (ra, r3) \<Rightarrow>
        if ra < 0 then (ra, r3)
        else (case value_to_term cdr tail r3 of (rd, r4) \<Rightarrow>
          if rd < 0 then (rd, r4)
          else PL_cons_list t head tail r4)))))"
  by pat_completeness auto
termination
proof (relation "measure (\<lambda>x. case x of
           Inl (v, t, r) \<Rightarrow> 2 * size v + 1
         | Inr (v, t, r) \<Rightarrow> max 2 (2 * size v))", goal_cases)
  case 1
  show ?case by simp
next
  case (2 v t r)
  then show ?case by (cases v) auto
next
  case (3 v t r head r1 tail r2 car cdr)
  then show ?case by (cases v) (auto simp: ecar_def)
next
  case (4 v t r head r1 tail r2 car cdr ra r3)
  then show ?case by (cases v) (auto simp: ecdr_def)
qed

section \<open>The query state machine\<close>

text \<open>
  What the bridge sees of a running query: \<^verbatim>\<open>PL_next_solution\<close> finds another solution,
  finds one and knows it is the last, raises an exception, or fails. A query is modelled
  by the outcomes the engine still has to deliver (none left: no more solutions) and by
  the exception, if any, that finalising it raises. \<open>q_args\<close> is the first of the two
  argument references; the engine binds the second one at each solution.
\<close>

datatype outcome = Solution Term | Last_solution Term | Raises Term

datatype status =
  PL_S_EXCEPTION | PL_S_FALSE | PL_S_TRUE | PL_S_LAST | PL_S_UNLISTED int

record query =
  q_context :: string
  q_predicate :: "string \<times> nat \<times> string"
  q_args :: term_t
  q_pending :: "outcome list"
  q_cleanup :: "Term option"

text \<open>
  The state of the process: the runtime of the conversions, the engine's current query
  (\<open>None\<close>: \<^verbatim>\<open>PL_current_query\<close> returns 0), the reference to the engine's pending
  exception, the program loaded in the engine (what a call of a predicate in a context
  module on an input term will do), and the global \<^verbatim>\<open>o\<close> of the bridge, here \<open>o_term\<close>
  (\<open>o\<close> is the composition of functions in HOL). The flags passed to \<^verbatim>\<open>PL_open_query\<close>
  are fixed in the source and select the four return codes of \<^verbatim>\<open>PL_next_solution\<close>
  modelled by \<open>status\<close>; \<open>PL_S_UNLISTED\<close> stands for any other code, which the
  \<^verbatim>\<open>default\<close> branch of \<open>sweep_next_solution\<close> handles and this engine never returns.
\<close>

record world =
  rt :: runtime
  current_query :: "query option"
  exception_ref :: term_t
  program :: "string \<Rightarrow> string \<times> nat \<times> string \<Rightarrow> Term \<Rightarrow> outcome list \<times> Term option"
  o_term :: term_t

definition cstring :: "string \<Rightarrow> string" where
  "cstring buf = takeWhile (\<lambda>c. c \<noteq> CHR 0x00) buf"

definition PL_new_atom :: "string \<Rightarrow> string" where
  "PL_new_atom chars = cstring chars"

definition PL_new_module :: "string \<Rightarrow> string" where
  "PL_new_module name = name"

definition PL_predicate :: "string \<Rightarrow> nat \<Rightarrow> string \<Rightarrow> string \<times> nat \<times> string" where
  "PL_predicate name arity module = (cstring name, arity, cstring module)"

definition PL_new_term_refs :: "nat \<Rightarrow> runtime \<Rightarrow> term_t \<times> runtime" where
  "PL_new_term_refs n r =
     (next_ref r,
      r\<lparr>term_store := (\<lambda>x. if next_ref r \<le> x \<and> x < next_ref r + n then Variable else term_store r x),
        next_ref := next_ref r + n\<rparr>)"

definition PL_current_query :: "world \<Rightarrow> query option" where
  "PL_current_query w = current_query w"

definition PL_exception :: "world \<Rightarrow> term_t" where
  "PL_exception w = exception_ref w"

definition raise_exception :: "Term \<Rightarrow> world \<Rightarrow> world" where
  "raise_exception e w =
     (case PL_new_term_ref (rt w) of (x, r) \<Rightarrow> w\<lparr>rt := put_term x e r, exception_ref := x\<rparr>)"

definition bind_output :: "query \<Rightarrow> Term \<Rightarrow> world \<Rightarrow> world" where
  "bind_output d b w = w\<lparr>rt := put_term (q_args d + 1) b (rt w)\<rparr>"

definition PL_open_query :: "string \<Rightarrow> string \<times> nat \<times> string \<Rightarrow> term_t \<Rightarrow> world \<Rightarrow> world" where
  "PL_open_query ctx p a w =
     (case program w ctx p (term_store (rt w) a) of (outcomes, cleanup_exception) \<Rightarrow>
        w\<lparr>current_query := Some \<lparr>q_context = ctx, q_predicate = p, q_args = a,
                                 q_pending = outcomes, q_cleanup = cleanup_exception\<rparr>\<rparr>)"

definition PL_next_solution :: "query \<Rightarrow> world \<Rightarrow> status \<times> world" where
  "PL_next_solution d w =
     (case q_pending d of
        [] \<Rightarrow> (PL_S_FALSE, w)
      | out # rest \<Rightarrow>
          (let w1 = w\<lparr>current_query := Some (d\<lparr>q_pending := rest\<rparr>)\<rparr> in
           case out of
             Solution b \<Rightarrow> (PL_S_TRUE, bind_output d b w1)
           | Last_solution b \<Rightarrow> (PL_S_LAST, bind_output d b w1)
           | Raises e \<Rightarrow> (PL_S_EXCEPTION, raise_exception e w1)))"

text \<open>
  Cutting and closing both end the query; closing also undoes the bindings. Each returns
  \<^verbatim>\<open>FALSE\<close> when finalising raised an exception.
\<close>

definition finish_query :: "query \<Rightarrow> world \<Rightarrow> bool \<times> world" where
  "finish_query d w =
     (case q_cleanup d of
        None \<Rightarrow> (True, w\<lparr>current_query := None\<rparr>)
      | Some e \<Rightarrow> (False, raise_exception e (w\<lparr>current_query := None\<rparr>)))"

definition PL_cut_query :: "query \<Rightarrow> world \<Rightarrow> bool \<times> world" where
  "PL_cut_query d w = finish_query d w"

definition PL_close_query :: "query \<Rightarrow> world \<Rightarrow> bool \<times> world" where
  "PL_close_query d w = finish_query d (bind_output d Variable w)"

text \<open>
  The entry points take term references; \<open>term_to_value_ref\<close> is \<^verbatim>\<open>term_to_value\<close>
  called on a reference: it converts the term the reference denotes.
\<close>

definition term_to_value_ref :: "term_t \<Rightarrow> world \<Rightarrow> emacs_value \<times> world" where
  "term_to_value_ref t w =
     (case term_to_value (term_store (rt w) t) (rt w) of (v, r) \<Rightarrow> (v, w\<lparr>rt := r\<rparr>))"

definition signal :: "string \<Rightarrow> world \<Rightarrow> world" where
  "signal message w = w\<lparr>rt := ethrow message (rt w)\<rparr>"

definition sweep_close_query :: "world \<Rightarrow> emacs_value \<times> world" where
  "sweep_close_query w =
     (case PL_current_query w of
        None \<Rightarrow> (None, signal ''No current query'' w)
      | Some d \<Rightarrow>
          (case PL_close_query d w of
             (False, w1) \<Rightarrow> term_to_value_ref (PL_exception w1) w1
           | (True, w1) \<Rightarrow> (et, w1)))"

definition sweep_cut_query :: "world \<Rightarrow> emacs_value \<times> world" where
  "sweep_cut_query w =
     (case PL_current_query w of
        None \<Rightarrow> (None, signal ''No current query'' w)
      | Some d \<Rightarrow>
          (case PL_cut_query d w of
             (False, w1) \<Rightarrow> term_to_value_ref (PL_exception w1) w1
           | (True, w1) \<Rightarrow> (et, w1)))"

definition sweep_next_solution :: "world \<Rightarrow> emacs_value \<times> world" where
  "sweep_next_solution w =
     (case PL_current_query w of
        None \<Rightarrow> (None, signal ''No current query'' w)
      | Some d \<Rightarrow>
          (case PL_next_solution d w of
             (PL_S_EXCEPTION, w1) \<Rightarrow>
               (case term_to_value_ref (PL_exception w1) w1 of
                  (v, w2) \<Rightarrow> (econs (intern ''exception'') v, w2))
           | (PL_S_FALSE, w1) \<Rightarrow> (enil, w1)
           | (PL_S_TRUE, w1) \<Rightarrow>
               (case term_to_value_ref (o_term w1) w1 of (v, w2) \<Rightarrow> (econs et v, w2))
           | (PL_S_LAST, w1) \<Rightarrow>
               (case term_to_value_ref (o_term w1) w1 of
                  (v, w2) \<Rightarrow> (econs (intern ''!'') v, w2))
           | (PL_S_UNLISTED k, w1) \<Rightarrow> (None, w1)))"

text \<open>
  \<^verbatim>\<open>sweep_open_query\<close>: the host calls it with exactly four arguments (the arity it is
  registered with). \<open>cleanup\<close> is the code after the label of that name: it frees the
  buffers that are not \<^verbatim>\<open>NULL\<close> and returns \<open>t\<close>.
\<close>

definition free_buffer :: "(string \<times> int) option \<Rightarrow> runtime \<Rightarrow> runtime" where
  "free_buffer b r = (case b of None \<Rightarrow> r | Some (buf, len) \<Rightarrow> free (nat len) r)"

definition cleanup ::
  "(string \<times> int) option \<Rightarrow> (string \<times> int) option \<Rightarrow> (string \<times> int) option \<Rightarrow> world
     \<Rightarrow> emacs_value \<times> world" where
  "cleanup c m f w = (et, w\<lparr>rt := free_buffer f (free_buffer m (free_buffer c (rt w)))\<rparr>)"

definition sweep_open_query :: "Value \<Rightarrow> Value \<Rightarrow> Value \<Rightarrow> Value \<Rightarrow> world \<Rightarrow> emacs_value \<times> world" where
  "sweep_open_query arg0 arg1 arg2 arg3 entry =
     (case PL_new_term_refs 2 (rt entry) of (a, r0) \<Rightarrow>
      (let w = entry\<lparr>rt := r0\<rparr> in
       if PL_current_query w \<noteq> None
       then cleanup None None None (signal ''Prolog is already executing a query'' w)
       else
         (case estring_to_cstring arg0 (rt w) of
            (None, r1) \<Rightarrow> cleanup None None None (w\<lparr>rt := r1\<rparr>)
          | (Some c, r1) \<Rightarrow>
              (let n = PL_new_module (PL_new_atom (fst c)) in
               case estring_to_cstring arg1 r1 of
                 (None, r2) \<Rightarrow> cleanup (Some c) None None (w\<lparr>rt := r2\<rparr>)
               | (Some m, r2) \<Rightarrow>
                   (case estring_to_cstring arg2 r2 of
                      (None, r3) \<Rightarrow> cleanup (Some c) (Some m) None (w\<lparr>rt := r3\<rparr>)
                    | (Some f, r3) \<Rightarrow>
                        (let p = PL_predicate (fst f) 2 (fst m) in
                         case value_to_term arg3 (a + 0) r3 of
                           (i, r4) \<Rightarrow>
                             if i < 0
                             then cleanup (Some c) (Some m) (Some f) (w\<lparr>rt := r4\<rparr>)
                             else cleanup (Some c) (Some m) (Some f)
                                    ((PL_open_query n p a (w\<lparr>rt := r4\<rparr>))\<lparr>o_term := a + 1\<rparr>)))))))"

text \<open>A process right after the engine was initialised: nothing allocated, no query.\<close>

definition fresh_runtime :: "(nat \<Rightarrow> bool) \<Rightarrow> runtime" where
  "fresh_runtime alloc =
     \<lparr>signalled = [], can_alloc = alloc, live = [], term_store = (\<lambda>x. Variable), next_ref = 1\<rparr>"

definition fresh_world ::
  "(nat \<Rightarrow> bool) \<Rightarrow> (string \<Rightarrow> string \<times> nat \<times> string \<Rightarrow> Term \<Rightarrow> outcome list \<times> Term option) \<Rightarrow> world" where
  "fresh_world alloc prog =
     \<lparr>rt = fresh_runtime alloc, current_query = None, exception_ref = 0, program = prog, o_term = 0\<rparr>"

section \<open>Functions used to state and prove the claims\<close>

text \<open>
  The values of the round-trip law: built from strings, integers, \<open>nil\<close> and cons cells
  only. \<open>engine_term\<close> is the term such a value denotes.
\<close>

fun representable :: "Value \<Rightarrow> bool" where
  "representable (ESymbol n) = (n = ''nil'')"
| "representable (EString s) = True"
| "representable (EInteger i) = True"
| "representable (ECons a d) = (representable a \<and> representable d)"

fun engine_term :: "Value \<Rightarrow> Term" where
  "engine_term (ESymbol n) = PNil"
| "engine_term (EString s) = PString s"
| "engine_term (EInteger i) = PInteger (sint i)"
| "engine_term (ECons a d) = ListPair (engine_term a) (engine_term d)"

text \<open>
  The terms \<^verbatim>\<open>PL_get_int64\<close> can read every integer of: the integers in the term, at
  any depth, fit in an \<^verbatim>\<open>int64_t\<close>.
\<close>

fun int64_term :: "Term \<Rightarrow> bool" where
  "int64_term (PInteger i) = (- (2 ^ 63) \<le> i \<and> i < 2 ^ 63)"
| "int64_term (ListPair h t) = (int64_term h \<and> int64_term t)"
| "int64_term (Compound f args) = list_all int64_term args"
| "int64_term t = True"


text \<open>
  The value a term converts to when every allocation succeeds and every integer is
  read, as a function of the term alone. It is a device of the statements and proofs
  below: the claims are stated about \<open>term_to_value\<close>.
\<close>

fun host_value :: "Term \<Rightarrow> Value" where
  "host_value Variable = ESymbol ''variable''"
| "host_value (Atom s) = ECons (ESymbol ''atom'') (EString s)"
| "host_value (PString s) = EString s"
| "host_value (PInteger i) = EInteger (word_of_int i)"
| "host_value PFloat = ESymbol ''blob''"
| "host_value PNil = ESymbol ''nil''"
| "host_value (ListPair h t) = ECons (host_value h) (host_value t)"
| "host_value (Compound f args) = ECons (ESymbol ''compound'') (elist (EString f # map host_value args))"
| "host_value Dict = ESymbol ''dict''"
| "host_value Blob = ESymbol ''blob''"
| "host_value (Opaque k) = ESymbol ''unconvertable''"

text \<open>
  The result of a conversion as a function of the term and of the allocator alone: a
  device for showing that nothing else in the runtime influences it.
\<close>

fun conversion_result :: "(nat \<Rightarrow> bool) \<Rightarrow> Term \<Rightarrow> emacs_value" where
  "conversion_result alloc (PInteger i) = map_option EInteger (PL_get_int64 (PInteger i))"
| "conversion_result alloc (ListPair h t) = econs (conversion_result alloc h) (conversion_result alloc t)"
| "conversion_result alloc (Compound f args) =
     (if alloc (vals_bytes sizeof_emacs_value (length args))
      then econs (intern ''compound'')
             (funcall_list (make_string f (length f) # map (conversion_result alloc) args))
      else None)"
| "conversion_result alloc t = Some (host_value t)"


text \<open>
  A process in which a query of \<open>lists:member/2\<close> is open, with two solutions still to
  come; the global \<^verbatim>\<open>o\<close> is the second argument reference, as \<open>sweep_open_query\<close>
  leaves it.
\<close>

definition demo_query :: query where
  "demo_query =
     \<lparr>q_context = ''user'', q_predicate = (''member'', 2, ''lists''), q_args = 1,
      q_pending = [Solution (PInteger 7), Last_solution (PInteger 8)], q_cleanup = None\<rparr>"

definition demo_world :: world where
  "demo_world =
     \<lparr>rt = (fresh_runtime (\<lambda>n. True))\<lparr>next_ref := 3\<rparr>, current_query = Some demo_query,
      exception_ref = 0, program = (\<lambda>ctx p t. ([], None)), o_term = 2\<rparr>"


section \<open>The conversion read through references\<close>

text \<open>
  In the source, \<^verbatim>\<open>term_to_value\<close> takes a term reference, and every helper reads the
  term through references: \<^verbatim>\<open>PL_get_list\<close> stores head and tail in two fresh references
  that the recursive calls then read, and the loop of \<^verbatim>\<open>term_to_value_compound\<close> reads
  argument \<open>n\<close> of \<open>t\<close> into the one reference \<open>arg\<close> at each iteration. The functions
  below follow the source in this, with the getters of the engine as partial functions
  and with fuel for the recursion (the engine's terms may be reached again and again
  through references). \<open>term_to_value_reads_references\<close> shows that they compute what
  \<open>term_to_value\<close> computes on the term denoted.
\<close>

definition PL_get_list :: "Term \<Rightarrow> (Term \<times> Term) option" where
  "PL_get_list l = (case l of ListPair h t \<Rightarrow> Some (h, t) | _ \<Rightarrow> None)"

definition PL_get_compound_name_arity :: "Term \<Rightarrow> (string \<times> nat) option" where
  "PL_get_compound_name_arity t = (case t of Compound f args \<Rightarrow> Some (f, length args) | _ \<Rightarrow> None)"

definition PL_get_arg :: "nat \<Rightarrow> Term \<Rightarrow> Term option" where
  "PL_get_arg n t =
     (case t of
        Compound f args \<Rightarrow> if 1 \<le> n \<and> n \<le> length args then Some (args ! (n - 1)) else None
      | _ \<Rightarrow> None)"

definition term_to_value_list_at ::
  "(term_t \<Rightarrow> runtime \<Rightarrow> (emacs_value \<times> runtime) option) \<Rightarrow> term_t \<Rightarrow> runtime
     \<Rightarrow> (emacs_value \<times> runtime) option" where
  "term_to_value_list_at rec l r =
     (case PL_new_term_ref r of (ph, r1) \<Rightarrow>
     (case PL_new_term_ref r1 of (pt, r2) \<Rightarrow>
     (case PL_get_list (term_store r2 l) of
        None \<Rightarrow> Some (None, r2)
      | Some (head, tail) \<Rightarrow>
          (case rec ph (put_term pt tail (put_term ph head r2)) of
             None \<Rightarrow> None
           | Some (vh, r3) \<Rightarrow>
               (case rec pt r3 of
                  None \<Rightarrow> None
                | Some (vt, r4) \<Rightarrow> Some (econs vh vt, r4))))))"

text \<open>
  The loop \<^verbatim>\<open>for (n = 1; n <= arity; n++)\<close>: \<open>k\<close> iterations are left, \<open>n\<close> is the
  index of the next argument.
\<close>

fun term_to_value_args_at ::
  "(term_t \<Rightarrow> runtime \<Rightarrow> (emacs_value \<times> runtime) option) \<Rightarrow> nat \<Rightarrow> nat \<Rightarrow> term_t \<Rightarrow> term_t
     \<Rightarrow> runtime \<Rightarrow> (emacs_value list \<times> runtime) option" where
  "term_to_value_args_at rec 0 n t arg r = Some ([], r)"
| "term_to_value_args_at rec (Suc k) n t arg r =
     (case rec arg (case PL_get_arg n (term_store r t) of
                      None \<Rightarrow> r
                    | Some a \<Rightarrow> put_term arg a r) of
        None \<Rightarrow> None
      | Some (v, r1) \<Rightarrow>
          (case term_to_value_args_at rec k (Suc n) t arg r1 of
             None \<Rightarrow> None
           | Some (vs, r2) \<Rightarrow> Some (v # vs, r2)))"

definition term_to_value_compound_at ::
  "(term_t \<Rightarrow> runtime \<Rightarrow> (emacs_value \<times> runtime) option) \<Rightarrow> term_t \<Rightarrow> runtime
     \<Rightarrow> (emacs_value \<times> runtime) option" where
  "term_to_value_compound_at rec t r =
     (case PL_new_term_ref r of (arg, r1) \<Rightarrow>
     (case PL_get_compound_name_arity (term_store r1 t) of
        None \<Rightarrow> Some (None, r1)
      | Some (name, arity) \<Rightarrow>
          (case malloc (vals_bytes sizeof_emacs_value arity) r1 of
             (False, r2) \<Rightarrow> Some (None, ethrow ''malloc failed'' r2)
           | (True, r2) \<Rightarrow>
               (case term_to_value_args_at rec arity 1 t arg r2 of
                  None \<Rightarrow> None
                | Some (vals, r3) \<Rightarrow>
                    Some (econs (intern ''compound'')
                            (funcall_list (make_string name (length name) # vals)), r3)))))"

primrec term_to_value_at :: "nat \<Rightarrow> term_t \<Rightarrow> runtime \<Rightarrow> (emacs_value \<times> runtime) option" where
  "term_to_value_at 0 = (\<lambda>t r. None)"
| "term_to_value_at (Suc fuel) = (\<lambda>t r.
     (case PL_term_type (term_store r t) of
        PL_VARIABLE \<Rightarrow> Some (term_to_value_variable (term_store r t) r)
      | PL_ATOM \<Rightarrow> Some (term_to_value_atom (term_store r t) r)
      | PL_STRING \<Rightarrow> Some (term_to_value_string (term_store r t) r)
      | PL_NIL \<Rightarrow> Some (enil, r)
      | PL_LIST_PAIR \<Rightarrow> term_to_value_list_at (term_to_value_at fuel) t r
      | PL_INTEGER \<Rightarrow> Some (term_to_value_integer (term_store r t) r)
      | PL_TERM \<Rightarrow> term_to_value_compound_at (term_to_value_at fuel) t r
      | PL_DICT \<Rightarrow> Some (term_to_value_dict (term_store r t) r)
      | PL_BLOB \<Rightarrow> Some (term_to_value_blob (term_store r t) r)
      | PL_FLOAT \<Rightarrow> Some (term_to_value_blob (term_store r t) r)
      | PL_UNKNOWN k \<Rightarrow> Some (intern ''unconvertable'', r)))"

section \<open>Facts about the conversions\<close>

declare term_to_value.simps [simp del]
declare value_to_term.simps [simp del] value_to_term_list.simps [simp del]

lemmas rt_defs = ethrow_def malloc_def free_def put_term_def PL_new_term_ref_def
lemmas leaf_defs = PL_get_int64_def term_to_value_integer_def term_to_value_string_def term_to_value_atom_def
  term_to_value_variable_def term_to_value_dict_def term_to_value_blob_def
lemmas host_defs = intern_def enil_def et_def make_string_def make_integer_def funcall_list_def

text \<open>No conversion changes what the allocator will do.\<close>

lemma term_to_value_can_alloc:
  "can_alloc (snd (term_to_value t r)) = can_alloc r"
  "can_alloc (snd (term_to_value_list t r)) = can_alloc r"
  "can_alloc (snd (term_to_value_compound t r)) = can_alloc r"
  "can_alloc (snd (term_to_value_args arg ts r)) = can_alloc r"
proof (induction t r and t r and t r and arg ts r
      rule: term_to_value_term_to_value_list_term_to_value_compound_term_to_value_args.induct)
  case (1 t r)
  then show ?case
    by (cases t) (simp_all add: leaf_defs term_to_value.simps)
next
  case (2 ph_term pt_term r)
  then show ?case
    by (auto simp: rt_defs split: prod.splits)
next
  case (4 name args r)
  then show ?case
    by (auto simp: rt_defs split: prod.splits)
next
  case (7 arg a as r)
  then show ?case
    by (auto simp: rt_defs split: prod.splits)
qed (simp_all add: rt_defs split_beta)

lemma int64_sint: "PL_get_int64 (PInteger (sint w)) = Some w"
  using sint_ge[of w] sint_lt[of w] by (simp add: PL_get_int64_def)

lemma int64_term_engine_term: "int64_term (engine_term v)"
proof (induction v)
  case (EInteger w)
  show ?case using sint_ge[of w] sint_lt[of w] by simp
qed simp_all


lemma host_value_engine_term: "representable v \<Longrightarrow> host_value (engine_term v) = v"
  by (induction v) simp_all

lemma nat_succ_int: "nat (1 + int n) = Suc n" "nat (int n + 1) = Suc n"
  by linarith+

lemma estring_to_cstring_ok:
  "can_alloc r (Suc (length s)) \<Longrightarrow>
   estring_to_cstring (EString s) r =
     (Some (s @ [CHR 0x00], int (length s) + 1), r\<lparr>live := Suc (length s) # live r\<rparr>)"
  by (simp add: estring_to_cstring_def copy_string_contents_probe_def copy_string_contents_def
      malloc_def nat_succ_int)

lemma estring_to_pstring_ok:
  "can_alloc r (Suc (length s)) \<Longrightarrow>
   estring_to_pstring (EString s) t r = (1, put_term t (PString s) r)"
  by (simp add: estring_to_pstring_def estring_to_cstring_ok PL_put_string_nchars_def
      put_term_def free_def nat_succ_int)

lemma value_to_term_frame:
  "next_ref r \<le> next_ref (snd (value_to_term v t r)) \<and>
   can_alloc (snd (value_to_term v t r)) = can_alloc r \<and>
   (\<forall>x. x \<noteq> t \<longrightarrow> x < next_ref r \<longrightarrow> term_store (snd (value_to_term v t r)) x = term_store r x)"
  "next_ref r \<le> next_ref (snd (value_to_term_list v t r)) \<and>
   can_alloc (snd (value_to_term_list v t r)) = can_alloc r \<and>
   (\<forall>x. x \<noteq> t \<longrightarrow> x < next_ref r \<longrightarrow> term_store (snd (value_to_term_list v t r)) x = term_store r x)"
proof (induction v t r and v t r rule: value_to_term_value_to_term_list.induct)
  case (1 v t r)
  have str: "next_ref (snd (estring_to_pstring v t r)) = next_ref r \<and>
     can_alloc (snd (estring_to_pstring v t r)) = can_alloc r \<and>
     (\<forall>x. x \<noteq> t \<longrightarrow> term_store (snd (estring_to_pstring v t r)) x = term_store r x)"
    by (auto simp: estring_to_pstring_def estring_to_cstring_def PL_put_string_nchars_def rt_defs
        split: option.splits prod.splits if_splits bool.splits)
  show ?case
    using 1 str
    by (simp add: value_to_term.simps[of v t r] value_to_term_string_def value_to_term_integer_def
        PL_put_int64_def PL_put_nil_def put_term_def)
next
  case (2 v t r)
  obtain head r1 where n1: "PL_new_term_ref r = (head, r1)" by (cases "PL_new_term_ref r")
  obtain tail r2 where n2: "PL_new_term_ref r1 = (tail, r2)" by (cases "PL_new_term_ref r1")
  have f2: "next_ref r2 = Suc (Suc (next_ref r))" "can_alloc r2 = can_alloc r"
      "\<forall>x. x < next_ref r \<longrightarrow> term_store r2 x = term_store r x"
      "head = next_ref r" "tail = Suc (next_ref r)"
    using n1 n2 by (auto simp: rt_defs)
  obtain ra r3 where e1: "value_to_term (ecar v) head r2 = (ra, r3)"
    by (cases "value_to_term (ecar v) head r2")
  have ih1: "next_ref r2 \<le> next_ref r3" "can_alloc r3 = can_alloc r2"
      "\<forall>x. x \<noteq> head \<longrightarrow> x < next_ref r2 \<longrightarrow> term_store r3 x = term_store r2 x"
    using 2(1)[OF n1[symmetric] n2[symmetric] refl refl] e1 by simp_all
  obtain rd r4 where e2: "value_to_term (ecdr v) tail r3 = (rd, r4)"
    by (cases "value_to_term (ecdr v) tail r3")
  have ih2: "\<not> ra < 0 \<Longrightarrow> next_ref r3 \<le> next_ref r4 \<and> can_alloc r4 = can_alloc r3 \<and>
      (\<forall>x. x \<noteq> tail \<longrightarrow> x < next_ref r3 \<longrightarrow> term_store r4 x = term_store r3 x)"
    using 2(2)[OF n1[symmetric] n2[symmetric] refl refl e1[symmetric]] e2 by simp
  have unfold: "value_to_term_list v t r =
      (if ra < 0 then (ra, r3) else if rd < 0 then (rd, r4) else PL_cons_list t head tail r4)"
    using n1 n2 e1 e2 by (simp add: value_to_term_list.simps[of v t r] Let_def)
  show ?case
  proof (cases "ra < 0")
    case True
    then show ?thesis using unfold f2 ih1 by auto
  next
    case False
    then show ?thesis using unfold f2 ih1 ih2 by (auto simp: PL_cons_list_def put_term_def)
  qed
qed

lemma value_to_term_engine_term:
  "representable v \<Longrightarrow> \<forall>n. can_alloc r n \<Longrightarrow>
     fst (value_to_term v t r) = 1 \<and>
     term_store (snd (value_to_term v t r)) t = engine_term v \<and>
     signalled (snd (value_to_term v t r)) = signalled r \<and>
     live (snd (value_to_term v t r)) = live r"
  "type_of v = ''cons'' \<Longrightarrow> representable v \<Longrightarrow> \<forall>n. can_alloc r n \<Longrightarrow>
     fst (value_to_term_list v t r) = 1 \<and>
     term_store (snd (value_to_term_list v t r)) t = engine_term v \<and>
     signalled (snd (value_to_term_list v t r)) = signalled r \<and>
     live (snd (value_to_term_list v t r)) = live r"
proof (induction v t r and v t r rule: value_to_term_value_to_term_list.induct)
  case (1 v t r)
  show ?case
  proof (cases v)
    case (ESymbol n)
    then show ?thesis using 1(2)
      by (simp add: value_to_term.simps is_not_nil_def PL_put_nil_def put_term_def)
  next
    case (EString s)
    then show ?thesis using 1(3)
      by (simp add: value_to_term.simps is_not_nil_def value_to_term_string_def
          estring_to_pstring_ok put_term_def)
  next
    case (EInteger i)
    then show ?thesis
      by (simp add: value_to_term.simps is_not_nil_def value_to_term_integer_def
          PL_put_int64_def put_term_def)
  next
    case (ECons a d)
    then show ?thesis using 1(1,2,3)
      by (simp add: value_to_term.simps is_not_nil_def)
  qed
next
  case (2 v t r)
  obtain a d where v: "v = ECons a d" using 2(3) by (cases v) simp_all
  have rep: "representable a" "representable d" using 2(4) v by simp_all
  obtain head r1 where n1: "PL_new_term_ref r = (head, r1)" by (cases "PL_new_term_ref r")
  obtain tail r2 where n2: "PL_new_term_ref r1 = (tail, r2)" by (cases "PL_new_term_ref r1")
  have f2: "can_alloc r2 = can_alloc r" "signalled r2 = signalled r" "live r2 = live r"
      "head < next_ref r2" "head \<noteq> tail"
    using n1 n2 by (auto simp: rt_defs)
  obtain ra r3 where e1: "value_to_term (ecar v) head r2 = (ra, r3)"
    by (cases "value_to_term (ecar v) head r2")
  have ih1: "ra = 1" "term_store r3 head = engine_term a" "signalled r3 = signalled r"
      "live r3 = live r"
    using 2(1)[OF n1[symmetric] n2[symmetric] refl refl] e1 rep 2(5) f2 v
    by (simp_all add: ecar_def)
  have fr1: "next_ref r2 \<le> next_ref r3" "can_alloc r3 = can_alloc r2"
    using value_to_term_frame(1)[of r2 "ecar v" head] e1 by simp_all
  obtain rd r4 where e2: "value_to_term (ecdr v) tail r3 = (rd, r4)"
    by (cases "value_to_term (ecdr v) tail r3")
  have ih2: "rd = 1" "term_store r4 tail = engine_term d" "signalled r4 = signalled r"
      "live r4 = live r"
    using 2(2)[OF n1[symmetric] n2[symmetric] refl refl e1[symmetric]] e2 rep 2(5) f2 fr1 v ih1
    by (simp_all add: ecdr_def)
  have keep: "term_store r4 head = term_store r3 head"
    using value_to_term_frame(1)[of r3 "ecdr v" tail] e2 f2 fr1 by simp
  have unfold: "value_to_term_list v t r = PL_cons_list t head tail r4"
    using n1 n2 e1 e2 ih1 ih2 by (simp add: value_to_term_list.simps[of v t r] Let_def)
  show ?case
    using unfold ih1 ih2 keep v by (simp add: PL_cons_list_def put_term_def)
qed


text \<open>The string transfer into a term, in both of its outcomes.\<close>

lemma estring_to_pstring_string:
  "estring_to_pstring (EString s) t r =
     (if can_alloc r (Suc (length s))
      then (1, put_term t (PString (take (nat ((int (length s) + 1) - 1)) (s @ [CHR 0x00]))) r)
      else (- 1, ethrow ''malloc failed'' r))"
  by (simp add: estring_to_pstring_def estring_to_cstring_def copy_string_contents_probe_def
      copy_string_contents_def PL_put_string_nchars_def rt_defs nat_succ_int)

text \<open>
  Whenever \<open>value_to_term\<close> succeeds on a representable value, the reference denotes the
  value's term.
\<close>

lemma value_to_term_success:
  "representable v \<Longrightarrow> 0 \<le> fst (value_to_term v t r) \<Longrightarrow>
     term_store (snd (value_to_term v t r)) t = engine_term v"
  "type_of v = ''cons'' \<Longrightarrow> representable v \<Longrightarrow> 0 \<le> fst (value_to_term_list v t r) \<Longrightarrow>
     term_store (snd (value_to_term_list v t r)) t = engine_term v"
proof (induction v t r and v t r rule: value_to_term_value_to_term_list.induct)
  case (1 v t r)
  show ?case
  proof (cases v)
    case (ESymbol n)
    then show ?thesis using 1(2)
      by (simp add: value_to_term.simps is_not_nil_def PL_put_nil_def put_term_def)
  next
    case (EString s)
    then show ?thesis using 1(3)
      by (simp add: value_to_term.simps is_not_nil_def value_to_term_string_def
          estring_to_pstring_string put_term_def split: if_splits)
  next
    case (EInteger i)
    then show ?thesis
      by (simp add: value_to_term.simps is_not_nil_def value_to_term_integer_def
          PL_put_int64_def put_term_def)
  next
    case (ECons a d)
    then show ?thesis using 1(1,2,3)
      by (simp add: value_to_term.simps is_not_nil_def)
  qed
next
  case (2 v t r)
  obtain a d where v: "v = ECons a d" using 2(3) by (cases v) simp_all
  have rep: "representable a" "representable d" using 2(4) v by simp_all
  obtain head r1 where n1: "PL_new_term_ref r = (head, r1)" by (cases "PL_new_term_ref r")
  obtain tail r2 where n2: "PL_new_term_ref r1 = (tail, r2)" by (cases "PL_new_term_ref r1")
  have f2: "head < next_ref r2" "head \<noteq> tail"
    using n1 n2 by (auto simp: rt_defs)
  obtain ra r3 where e1: "value_to_term (ecar v) head r2 = (ra, r3)"
    by (cases "value_to_term (ecar v) head r2")
  obtain rd r4 where e2: "value_to_term (ecdr v) tail r3 = (rd, r4)"
    by (cases "value_to_term (ecdr v) tail r3")
  have unfold: "value_to_term_list v t r =
      (if ra < 0 then (ra, r3) else if rd < 0 then (rd, r4) else PL_cons_list t head tail r4)"
    using n1 n2 e1 e2 by (simp add: value_to_term_list.simps[of v t r] Let_def)
  have ok: "\<not> ra < 0" "\<not> rd < 0"
    using 2(5) unfold by (auto split: if_splits)
  have ih1: "term_store r3 head = engine_term a"
    using 2(1)[OF n1[symmetric] n2[symmetric] refl refl] e1 rep ok v by (simp add: ecar_def)
  have fr1: "next_ref r2 \<le> next_ref r3"
    using value_to_term_frame(1)[of r2 "ecar v" head] e1 by simp
  have ih2: "term_store r4 tail = engine_term d"
    using 2(2)[OF n1[symmetric] n2[symmetric] refl refl e1[symmetric]] e2 rep ok v
    by (simp add: ecdr_def)
  have keep: "term_store r4 head = term_store r3 head"
    using value_to_term_frame(1)[of r3 "ecdr v" tail] e2 f2 fr1 by simp
  show ?case
    using unfold ok ih1 ih2 keep v by (simp add: PL_cons_list_def put_term_def)
qed

lemma term_to_value_conversion_result:
  "fst (term_to_value t r) = conversion_result (can_alloc r) t"
  "PL_term_type t = PL_LIST_PAIR \<Longrightarrow> fst (term_to_value_list t r) = conversion_result (can_alloc r) t"
  "PL_term_type t = PL_TERM \<Longrightarrow> fst (term_to_value_compound t r) = conversion_result (can_alloc r) t"
  "fst (term_to_value_args arg ts r) = map (conversion_result (can_alloc r)) ts"
proof (induction t r and t r and t r and arg ts r
      rule: term_to_value_term_to_value_list_term_to_value_compound_term_to_value_args.induct)
  case (1 t r)
  then show ?case
    by (cases t) (simp_all add: leaf_defs host_defs term_to_value.simps)
next
  case (2 ph_term pt_term r)
  obtain ph r1 where n1: "PL_new_term_ref r = (ph, r1)" by (cases "PL_new_term_ref r")
  obtain pt r2 where n2: "PL_new_term_ref r1 = (pt, r2)" by (cases "PL_new_term_ref r1")
  let ?r2 = "put_term pt pt_term (put_term ph ph_term r2)"
  have a2: "can_alloc ?r2 = can_alloc r"
    using n1 n2 by (auto simp: rt_defs)
  obtain vh r3 where e1: "term_to_value ph_term ?r2 = (vh, r3)"
    by (cases "term_to_value ph_term ?r2")
  have h1: "vh = conversion_result (can_alloc r) ph_term"
    using 2(1)[OF n1[symmetric] n2[symmetric]] a2 e1 by simp
  have a3: "can_alloc r3 = can_alloc r"
    using term_to_value_can_alloc(1)[of ph_term ?r2] a2 e1 by simp
  obtain vt r4 where e2: "term_to_value pt_term r3 = (vt, r4)"
    by (cases "term_to_value pt_term r3")
  have h2: "vt = conversion_result (can_alloc r) pt_term"
    using 2(2)[OF n1[symmetric] n2[symmetric] e1[symmetric]] a3 e2 by simp
  have "term_to_value_list (ListPair ph_term pt_term) r = (econs vh vt, r4)"
    using n1 n2 e1 e2 by simp
  then show ?case using h1 h2 by simp
next
  case (4 name args r)
  obtain arg r1 where n: "PL_new_term_ref r = (arg, r1)" by (cases "PL_new_term_ref r")
  let ?n = "vals_bytes sizeof_emacs_value (length args)"
  have a1: "can_alloc r1 = can_alloc r" using n by (auto simp: rt_defs)
  show ?case
  proof (cases "can_alloc r ?n")
    case False
    then have "malloc ?n r1 = (False, r1)" using a1 by (simp add: rt_defs)
    then show ?thesis using n False by simp
  next
    case True
    then obtain r2 where m: "malloc ?n r1 = (True, r2)" and a2: "can_alloc r2 = can_alloc r"
      using a1 by (auto simp: rt_defs)
    obtain vals r3 where e: "term_to_value_args arg args r2 = (vals, r3)"
      by (cases "term_to_value_args arg args r2")
    have ih: "vals = map (conversion_result (can_alloc r)) args"
      using 4(1)[OF n[symmetric] m[symmetric] refl] a2 e by simp
    have "term_to_value_compound (Compound name args) r =
        (econs (intern ''compound'') (funcall_list (make_string name (length name) # vals)), r3)"
      using n m e by simp
    then show ?thesis using ih True by simp
  qed
next
  case (7 arg a as r)
  let ?r0 = "put_term arg a r"
  have a0: "can_alloc ?r0 = can_alloc r" by (simp add: rt_defs)
  obtain v r1 where e1: "term_to_value a ?r0 = (v, r1)" by (cases "term_to_value a ?r0")
  have h1: "v = conversion_result (can_alloc r) a"
    using 7(1) a0 e1 by simp
  have a1: "can_alloc r1 = can_alloc r"
    using term_to_value_can_alloc(1)[of a ?r0] a0 e1 by simp
  obtain vs r2 where e2: "term_to_value_args arg as r1 = (vs, r2)"
    by (cases "term_to_value_args arg as r1")
  have h2: "vs = map (conversion_result (can_alloc r)) as"
    using 7(2)[OF e1[symmetric]] a1 e2 by simp
  show ?case using e1 e2 h1 h2 by simp
qed simp_all



lemma conversion_result_engine_term:
  "conversion_result alloc (engine_term v) = Some (host_value (engine_term v))"
  by (induction v) (simp_all add: int64_sint)






lemmas eval_defs = fresh_runtime_def rt_defs leaf_defs host_defs term_to_value.simps
  value_to_term.simps value_to_term_list.simps vals_bytes_def sizeof_emacs_value_def
  is_not_nil_def ecar_def ecdr_def value_to_term_string_def value_to_term_integer_def
  estring_to_pstring_def estring_to_cstring_def copy_string_contents_probe_def
  copy_string_contents_def PL_put_string_nchars_def PL_put_int64_def PL_put_nil_def
  PL_cons_list_def

section \<open>The claims\<close>

text \<open>
  C1. Round trip. Let \<open>v\<close> be a value built from strings, integers, \<open>nil\<close> and cons
  cells only (\<open>representable\<close>). Whenever \<open>value_to_term\<close> converts \<open>v\<close> into the
  reference \<open>t\<close> (it returns no negative code), converting the term that \<open>t\<close> then
  denotes back with \<open>term_to_value\<close> yields \<open>v\<close> itself. And \<open>value_to_term\<close> does
  convert \<open>v\<close> when the allocator serves the buffers of the string transfer.
\<close>

theorem value_term_value_roundtrip:
  assumes "representable v"
  shows "(0 \<le> fst (value_to_term v t r) \<longrightarrow>
            fst (term_to_value (term_store (snd (value_to_term v t r)) t)
                   (snd (value_to_term v t r))) = Some v) \<and>
         ((\<forall>n. can_alloc r n) \<longrightarrow> 0 \<le> fst (value_to_term v t r))"
proof -
  let ?r' = "snd (value_to_term v t r)"
  have "fst (term_to_value (term_store ?r' t) ?r') = Some v"
    if "0 \<le> fst (value_to_term v t r)"
  proof -
    have "term_store ?r' t = engine_term v"
      using value_to_term_success(1)[OF assms that] .
    then show ?thesis
      using host_value_engine_term[OF assms]
      by (simp add: term_to_value_conversion_result(1) conversion_result_engine_term)
  qed
  moreover have "0 \<le> fst (value_to_term v t r)" if "\<forall>n. can_alloc r n"
    using value_to_term_engine_term(1)[OF assms that] by simp
  ultimately show ?thesis by blast
qed

theorem value_term_value_roundtrip_witness:
  "representable (ECons (EString ''ab'') (ECons (EInteger 3) (ESymbol ''nil''))) \<and>
   0 \<le> fst (value_to_term (ECons (EString ''ab'') (ECons (EInteger 3) (ESymbol ''nil''))) 0
              (fresh_runtime (\<lambda>n. True))) \<and>
   fst (term_to_value
          (term_store (snd (value_to_term (ECons (EString ''ab'') (ECons (EInteger 3) (ESymbol ''nil'')))
                              0 (fresh_runtime (\<lambda>n. True)))) 0)
          (snd (value_to_term (ECons (EString ''ab'') (ECons (EInteger 3) (ESymbol ''nil''))) 0
                  (fresh_runtime (\<lambda>n. True)))))
     = Some (ECons (EString ''ab'') (ECons (EInteger 3) (ESymbol ''nil'')))"
  using value_term_value_roundtrip
    [of "ECons (EString ''ab'') (ECons (EInteger 3) (ESymbol ''nil''))" 0 "fresh_runtime (\<lambda>n. True)"]
  by (simp add: fresh_runtime_def)

text \<open>
  C5. The claim: a float, a dict and a blob term each convert to a symbol of their own,
  \<open>float\<close>, \<open>dict\<close> and \<open>blob\<close>. The switch of \<^verbatim>\<open>term_to_value\<close> sends \<^verbatim>\<open>PL_FLOAT\<close> to
  \<^verbatim>\<open>term_to_value_blob\<close>: a float converts to the symbol \<open>blob\<close>, the same as a blob,
  and \<^verbatim>\<open>term_to_value_float\<close>, which would return \<open>float\<close>, is never called.
\<close>

theorem float_converts_to_blob:
  "fst (term_to_value PFloat r) = Some (ESymbol ''blob'') \<and>
   fst (term_to_value PFloat r) = fst (term_to_value Blob r) \<and>
   fst (term_to_value Dict r) = Some (ESymbol ''dict'') \<and>
   fst (term_to_value_float PFloat r) = Some (ESymbol ''float'')"
  by (simp add: term_to_value.simps term_to_value_blob_def term_to_value_dict_def
      term_to_value_float_def intern_def)



text \<open>
  C7. The claim: the argument array has room for \<open>arity + 1\<close> values and all of it is
  zeroed. The code asks \<^verbatim>\<open>malloc\<close> (and \<^verbatim>\<open>memset\<close>) for
  \<^verbatim>\<open>sizeof(emacs_value)*arity + 1\<close> bytes: one byte, not one element, more than \<open>arity\<close>
  elements. For \<open>f(1)\<close> the block is 9 bytes where two pointers need 16, and for every
  arity the block is smaller than \<open>arity + 1\<close> elements, whatever the size of an element
  (of two bytes at least).
\<close>

theorem vals_block_too_small:
  "live (snd (term_to_value (Compound ''f'' [PInteger 1]) (fresh_runtime (\<lambda>n. True)))) = [9] \<and>
   9 < sizeof_emacs_value * (1 + 1) \<and>
   (\<forall>arity. vals_bytes sizeof_emacs_value arity < sizeof_emacs_value * (arity + 1)) \<and>
   (\<forall>sz arity. vals_bytes (sz + 2) arity < (sz + 2) * (arity + 1))"
  by (simp add: eval_defs)

text \<open>
  C8. For a host string of bytes \<open>s\<close>, the length the host's probe reports is
  \<open>length s + 1\<close>: the bytes and one terminator. When the buffer of that length is
  allocated, \<open>value_to_term_string\<close> builds the string term from the first \<open>len - 1\<close>
  bytes of the buffer, and these are \<open>s\<close>; otherwise it fails with \<open>-1\<close>.
\<close>

theorem string_term_length_minus_one:
  "copy_string_contents_probe (EString s) = Some (int (length s) + 1) \<and>
   value_to_term_string (EString s) t r =
     (if can_alloc r (Suc (length s))
      then (1, put_term t (PString (take (nat ((int (length s) + 1) - 1)) (s @ [CHR 0x00]))) r)
      else (- 1, ethrow ''malloc failed'' r)) \<and>
   take (nat ((int (length s) + 1) - 1)) (s @ [CHR 0x00]) = s"
proof -
  have probe: "copy_string_contents_probe (EString s) = Some (int (length s) + 1)"
    by (simp add: copy_string_contents_probe_def)
  have built: "value_to_term_string (EString s) t r =
     (if can_alloc r (Suc (length s))
      then (1, put_term t (PString (take (nat ((int (length s) + 1) - 1)) (s @ [CHR 0x00]))) r)
      else (- 1, ethrow ''malloc failed'' r))"
    unfolding value_to_term_string_def by (rule estring_to_pstring_string)
  have bytes: "take (nat ((int (length s) + 1) - 1)) (s @ [CHR 0x00]) = s"
    by simp
  show ?thesis
    using probe built bytes by (intro conjI)
qed

theorem string_term_length_minus_one_witness:
  "copy_string_contents_probe (EString ''abc'') = Some 4 \<and>
   term_store (snd (value_to_term_string (EString ''abc'') 0 (fresh_runtime (\<lambda>n. True)))) 0
     = PString ''abc''"
  using string_term_length_minus_one [of "''abc''" 0 "fresh_runtime (\<lambda>n. True)"]
  by (simp add: fresh_runtime_def put_term_def)





section \<open>Facts about the query state machine\<close>

lemmas engine_defs = PL_current_query_def PL_exception_def raise_exception_def bind_output_def
  PL_open_query_def PL_next_solution_def finish_query_def PL_cut_query_def PL_close_query_def
  signal_def

lemma term_to_value_ref_frame:
  "current_query (snd (term_to_value_ref t w)) = current_query w"
  "o_term (snd (term_to_value_ref t w)) = o_term w"
  "exception_ref (snd (term_to_value_ref t w)) = exception_ref w"
  "program (snd (term_to_value_ref t w)) = program w"
  "can_alloc (rt (snd (term_to_value_ref t w))) = can_alloc (rt w)"
  by (simp_all add: term_to_value_ref_def split_beta term_to_value_can_alloc(1))


text \<open>The messages the string transfer and \<open>value_to_term\<close> can signal.\<close>

lemma estring_to_cstring_signals:
  "set (signalled (snd (estring_to_cstring v r))) \<subseteq>
     set (signalled r) \<union>
     {''Failed to get string length'', ''malloc failed'', ''Failed to copy string contents''}"
  by (auto simp: estring_to_cstring_def rt_defs split: option.splits prod.splits bool.splits if_splits)

lemma value_to_term_signals:
  "set (signalled (snd (value_to_term v t r))) \<subseteq>
     set (signalled r) \<union>
     {''Failed to get string length'', ''malloc failed'', ''Failed to copy string contents''}"
  "set (signalled (snd (value_to_term_list v t r))) \<subseteq>
     set (signalled r) \<union>
     {''Failed to get string length'', ''malloc failed'', ''Failed to copy string contents''}"
proof (induction v t r and v t r rule: value_to_term_value_to_term_list.induct)
  case (1 v t r)
  have str: "set (signalled (snd (estring_to_pstring v t r))) \<subseteq>
     set (signalled r) \<union>
     {''Failed to get string length'', ''malloc failed'', ''Failed to copy string contents''}"
    using estring_to_cstring_signals[of v r]
    by (auto simp: estring_to_pstring_def PL_put_string_nchars_def rt_defs
        split: option.splits prod.splits)
  show ?case
    using 1 str
    by (auto simp: value_to_term.simps value_to_term_string_def value_to_term_integer_def
        PL_put_int64_def PL_put_nil_def put_term_def)
next
  case (2 v t r)
  obtain head r1 where n1: "PL_new_term_ref r = (head, r1)" by (cases "PL_new_term_ref r")
  obtain tail r2 where n2: "PL_new_term_ref r1 = (tail, r2)" by (cases "PL_new_term_ref r1")
  have f2: "signalled r2 = signalled r"
    using n1 n2 by (auto simp: rt_defs)
  obtain ra r3 where e1: "value_to_term (ecar v) head r2 = (ra, r3)"
    by (cases "value_to_term (ecar v) head r2")
  have ih1: "set (signalled r3) \<subseteq> set (signalled r) \<union>
     {''Failed to get string length'', ''malloc failed'', ''Failed to copy string contents''}"
    using 2(1)[OF n1[symmetric] n2[symmetric] refl refl] e1 f2 by simp
  obtain rd r4 where e2: "value_to_term (ecdr v) tail r3 = (rd, r4)"
    by (cases "value_to_term (ecdr v) tail r3")
  have ih2: "\<not> ra < 0 \<Longrightarrow> set (signalled r4) \<subseteq> set (signalled r3) \<union>
     {''Failed to get string length'', ''malloc failed'', ''Failed to copy string contents''}"
    using 2(2)[OF n1[symmetric] n2[symmetric] refl refl e1[symmetric]] e2 by simp
  have unfold: "value_to_term_list v t r =
      (if ra < 0 then (ra, r3) else if rd < 0 then (rd, r4) else PL_cons_list t head tail r4)"
    using n1 n2 e1 e2 by (simp add: value_to_term_list.simps[of v t r] Let_def)
  show ?case
  proof (cases "ra < 0")
    case True
    then show ?thesis using unfold ih1 by simp
  next
    case False
    then show ?thesis using unfold ih1 ih2[OF False]
      by (auto simp: PL_cons_list_def put_term_def)
  qed
qed

lemma free_buffer_signalled: "signalled (free_buffer b r) = signalled r"
  by (simp add: free_buffer_def free_def split: option.splits)

text \<open>With no query open, \<open>sweep_open_query\<close> signals only what the conversions signal.\<close>

lemma sweep_open_query_signals:
  assumes "current_query w = None"
  shows "set (signalled (rt (snd (sweep_open_query arg0 arg1 arg2 arg3 w)))) \<subseteq>
     set (signalled (rt w)) \<union>
     {''Failed to get string length'', ''malloc failed'', ''Failed to copy string contents''}"
proof -
  let ?S = "{''Failed to get string length'', ''malloc failed'', ''Failed to copy string contents''}"
  obtain a r0 where n: "PL_new_term_refs 2 (rt w) = (a, r0)" by (cases "PL_new_term_refs 2 (rt w)")
  have s0: "signalled r0 = signalled (rt w)" using n by (auto simp: PL_new_term_refs_def)
  obtain c r1 where e0: "estring_to_cstring arg0 r0 = (c, r1)" by (cases "estring_to_cstring arg0 r0")
  have s1: "set (signalled r1) \<subseteq> set (signalled (rt w)) \<union> ?S"
    using estring_to_cstring_signals[of arg0 r0] e0 s0 by simp
  obtain m r2 where e1: "estring_to_cstring arg1 r1 = (m, r2)" by (cases "estring_to_cstring arg1 r1")
  have s2: "set (signalled r2) \<subseteq> set (signalled (rt w)) \<union> ?S"
    using estring_to_cstring_signals[of arg1 r1] e1 s1 by auto
  obtain f r3 where e2: "estring_to_cstring arg2 r2 = (f, r3)" by (cases "estring_to_cstring arg2 r2")
  have s3: "set (signalled r3) \<subseteq> set (signalled (rt w)) \<union> ?S"
    using estring_to_cstring_signals[of arg2 r2] e2 s2 by auto
  obtain i r4 where e3: "value_to_term arg3 (a + 0) r3 = (i, r4)" by (cases "value_to_term arg3 (a + 0) r3")
  have s4: "set (signalled r4) \<subseteq> set (signalled (rt w)) \<union> ?S"
    using value_to_term_signals(1)[of arg3 "a + 0" r3] e3 s3 by auto
  show ?thesis
    using assms n e0 e1 e2 e3 s0 s1 s2 s3 s4
    by (auto simp: sweep_open_query_def cleanup_def free_buffer_signalled PL_current_query_def
        PL_open_query_def Let_def split_beta split: option.splits)
qed



text \<open>
  C3. Query sequencing. With no query open, \<open>sweep_next_solution\<close>, \<open>sweep_cut_query\<close>
  and \<open>sweep_close_query\<close> each signal \<open>No current query\<close> and return \<^verbatim>\<open>NULL\<close>, and
  \<open>sweep_open_query\<close> does not signal \<open>Prolog is already executing a query\<close>. With a
  query open, \<open>sweep_open_query\<close> signals exactly that message and leaves the open query
  and \<^verbatim>\<open>o\<close> as they were; \<open>sweep_cut_query\<close> and \<open>sweep_close_query\<close> leave no query open,
  so that an open call that follows them is not rejected.
\<close>

theorem query_sequencing:
  "(current_query w = None \<longrightarrow>
      fst (sweep_next_solution w) = None \<and>
      signalled (rt (snd (sweep_next_solution w))) = signalled (rt w) @ [''No current query''] \<and>
      fst (sweep_cut_query w) = None \<and>
      signalled (rt (snd (sweep_cut_query w))) = signalled (rt w) @ [''No current query''] \<and>
      fst (sweep_close_query w) = None \<and>
      signalled (rt (snd (sweep_close_query w))) = signalled (rt w) @ [''No current query''] \<and>
      (''Prolog is already executing a query'' \<notin> set (signalled (rt w)) \<longrightarrow>
       ''Prolog is already executing a query'' \<notin>
          set (signalled (rt (snd (sweep_open_query arg0 arg1 arg2 arg3 w)))))) \<and>
   (\<forall>d. current_query w = Some d \<longrightarrow>
      signalled (rt (snd (sweep_open_query arg0 arg1 arg2 arg3 w))) =
        signalled (rt w) @ [''Prolog is already executing a query''] \<and>
      current_query (snd (sweep_open_query arg0 arg1 arg2 arg3 w)) = Some d \<and>
      o_term (snd (sweep_open_query arg0 arg1 arg2 arg3 w)) = o_term w \<and>
      current_query (snd (sweep_cut_query w)) = None \<and>
      current_query (snd (sweep_close_query w)) = None \<and>
      (''Prolog is already executing a query'' \<notin> set (signalled (rt (snd (sweep_close_query w)))) \<longrightarrow>
       ''Prolog is already executing a query'' \<notin>
          set (signalled (rt (snd (sweep_open_query arg0 arg1 arg2 arg3 (snd (sweep_close_query w))))))) \<and>
      (''Prolog is already executing a query'' \<notin> set (signalled (rt (snd (sweep_cut_query w)))) \<longrightarrow>
       ''Prolog is already executing a query'' \<notin>
          set (signalled (rt (snd (sweep_open_query arg0 arg1 arg2 arg3 (snd (sweep_cut_query w))))))))"
proof -
  let ?busy = "''Prolog is already executing a query''"
  have not_rejected: "?busy \<notin> set (signalled (rt (snd (sweep_open_query arg0 arg1 arg2 arg3 u))))"
    if "current_query u = None" "?busy \<notin> set (signalled (rt u))" for u
    using sweep_open_query_signals[OF that(1), of arg0 arg1 arg2 arg3] that(2) by auto
  have idle: "fst (sweep_next_solution w) = None \<and>
      signalled (rt (snd (sweep_next_solution w))) = signalled (rt w) @ [''No current query''] \<and>
      fst (sweep_cut_query w) = None \<and>
      signalled (rt (snd (sweep_cut_query w))) = signalled (rt w) @ [''No current query''] \<and>
      fst (sweep_close_query w) = None \<and>
      signalled (rt (snd (sweep_close_query w))) = signalled (rt w) @ [''No current query'']"
    if "current_query w = None"
    using that
    by (simp add: sweep_next_solution_def sweep_cut_query_def sweep_close_query_def
        PL_current_query_def signal_def ethrow_def)
  have closed: "current_query (snd (sweep_cut_query w)) = None \<and>
      current_query (snd (sweep_close_query w)) = None"
    if "current_query w = Some d" for d
    using that
    by (simp add: sweep_cut_query_def sweep_close_query_def engine_defs term_to_value_ref_frame
        split_beta split: option.splits)
  have busy: "signalled (rt (snd (sweep_open_query arg0 arg1 arg2 arg3 w))) =
        signalled (rt w) @ [?busy] \<and>
      current_query (snd (sweep_open_query arg0 arg1 arg2 arg3 w)) = Some d \<and>
      o_term (snd (sweep_open_query arg0 arg1 arg2 arg3 w)) = o_term w"
    if "current_query w = Some d" for d
    using that
    by (simp add: sweep_open_query_def PL_current_query_def PL_new_term_refs_def cleanup_def
        free_buffer_def signal_def ethrow_def Let_def)
  show ?thesis
    using idle not_rejected closed busy by blast
qed

theorem query_sequencing_witness:
  "current_query demo_world = Some demo_query \<and>
   signalled (rt (snd (sweep_open_query (EString ''user'') (EString ''lists'') (EString ''member'')
                         (EInteger 1) demo_world))) = [''Prolog is already executing a query''] \<and>
   current_query (snd (sweep_close_query demo_world)) = None \<and>
   signalled (rt (snd (sweep_next_solution (snd (sweep_close_query demo_world))))) = [''No current query''] \<and>
   signalled (rt (snd (sweep_open_query (EString ''user'') (EString ''lists'') (EString ''member'')
                         (EInteger 1) (snd (sweep_cut_query demo_world))))) = [] \<and>
   current_query (snd (sweep_open_query (EString ''user'') (EString ''lists'') (EString ''member'')
                         (EInteger 1) (snd (sweep_cut_query demo_world)))) \<noteq> None"
  using query_sequencing [of demo_world "EString ''user''" "EString ''lists''" "EString ''member''" "EInteger 1"]
    query_sequencing [of "snd (sweep_close_query demo_world)" "EString ''user''" "EString ''lists''" "EString ''member''" "EInteger 1"]
  by (simp add: demo_world_def demo_query_def sweep_open_query_def sweep_close_query_def
      sweep_cut_query_def sweep_next_solution_def cleanup_def free_buffer_def PL_new_term_refs_def
      cstring_def PL_new_atom_def PL_new_module_def PL_predicate_def
      engine_defs eval_defs Let_def)

text \<open>
  C4. The claim: when a string decode or the conversion of the input value fails,
  \<open>sweep_open_query\<close> releases the buffers, reports the failure and opens no query. For
  an input value of a type \<open>value_to_term\<close> does not support (here the symbol \<open>t\<close>),
  \<open>value_to_term\<close> returns \<open>-1\<close> without signalling, and \<open>sweep_open_query\<close> jumps to
  \<open>cleanup\<close> and returns \<open>t\<close>: the buffers are released and no query is open, but nothing
  is signalled, and the caller receives the value of a successful call.
\<close>

theorem open_query_silent_failure:
  "fst (sweep_open_query (EString ''user'') (EString ''lists'') (EString ''member'') (ESymbol ''t'')
          (fresh_world (\<lambda>n. True) prog)) = Some (ESymbol ''t'') \<and>
   signalled (rt (snd (sweep_open_query (EString ''user'') (EString ''lists'') (EString ''member'')
          (ESymbol ''t'') (fresh_world (\<lambda>n. True) prog)))) = [] \<and>
   current_query (snd (sweep_open_query (EString ''user'') (EString ''lists'') (EString ''member'')
          (ESymbol ''t'') (fresh_world (\<lambda>n. True) prog))) = None \<and>
   live (rt (snd (sweep_open_query (EString ''user'') (EString ''lists'') (EString ''member'')
          (ESymbol ''t'') (fresh_world (\<lambda>n. True) prog)))) = [] \<and>
   fst (sweep_open_query (EString ''user'') (EString ''lists'') (EString ''member'') (ESymbol ''t'')
          (fresh_world (\<lambda>n. True) prog)) =
   fst (sweep_open_query (EString ''user'') (EString ''lists'') (EString ''member'') (EInteger 1)
          (fresh_world (\<lambda>n. True) prog)) \<and>
   signalled (rt (snd (sweep_open_query (EString ''user'') (EInteger 1) (EString ''member'')
          (ESymbol ''t'') (fresh_world (\<lambda>n. True) prog)))) = [''Failed to get string length'']"
  by (simp add: fresh_world_def sweep_open_query_def cleanup_def free_buffer_def
      PL_new_term_refs_def cstring_def PL_new_atom_def PL_new_module_def PL_predicate_def
      engine_defs eval_defs Let_def)

text \<open>
  C10. The global \<^verbatim>\<open>o\<close>.
  \<^item> It is written only by an open call that opens the query: the other three entry
    points leave it as it is, and when \<open>sweep_open_query\<close> changes it, no query was open
    before, one is open afterwards, and \<^verbatim>\<open>o\<close> is its second argument reference.
  \<^item> It is read only by \<open>sweep_next_solution\<close> with a query open: in every other case an
    entry point started with another value of \<^verbatim>\<open>o\<close> returns the same value and
    leaves the same state (up to \<^verbatim>\<open>o\<close> itself, where it does not write it).
  \<^item> So after a cut or a close, when no query is open, the next step signals
    \<open>No current query\<close> whatever \<^verbatim>\<open>o\<close> holds.
\<close>

theorem output_reference_discipline:
  "o_term (snd (sweep_next_solution w)) = o_term w \<and>
   o_term (snd (sweep_cut_query w)) = o_term w \<and>
   o_term (snd (sweep_close_query w)) = o_term w \<and>
   (o_term (snd (sweep_open_query arg0 arg1 arg2 arg3 w)) \<noteq> o_term w \<longrightarrow>
      current_query w = None \<and>
      (\<exists>d. current_query (snd (sweep_open_query arg0 arg1 arg2 arg3 w)) = Some d \<and>
           o_term (snd (sweep_open_query arg0 arg1 arg2 arg3 w)) = q_args d + 1)) \<and>
   sweep_cut_query (w\<lparr>o_term := x\<rparr>) =
     (fst (sweep_cut_query w), (snd (sweep_cut_query w))\<lparr>o_term := x\<rparr>) \<and>
   sweep_close_query (w\<lparr>o_term := x\<rparr>) =
     (fst (sweep_close_query w), (snd (sweep_close_query w))\<lparr>o_term := x\<rparr>) \<and>
   (current_query w = None \<longrightarrow>
      sweep_next_solution (w\<lparr>o_term := x\<rparr>) =
        (fst (sweep_next_solution w), (snd (sweep_next_solution w))\<lparr>o_term := x\<rparr>)) \<and>
   fst (sweep_open_query arg0 arg1 arg2 arg3 (w\<lparr>o_term := x\<rparr>)) =
     fst (sweep_open_query arg0 arg1 arg2 arg3 w) \<and>
   (snd (sweep_open_query arg0 arg1 arg2 arg3 (w\<lparr>o_term := x\<rparr>)))\<lparr>o_term := y\<rparr> =
     (snd (sweep_open_query arg0 arg1 arg2 arg3 w))\<lparr>o_term := y\<rparr> \<and>
   (\<forall>d. current_query w = Some d \<longrightarrow>
      sweep_next_solution ((snd (sweep_close_query w))\<lparr>o_term := x\<rparr>) =
        (None, signal ''No current query'' ((snd (sweep_close_query w))\<lparr>o_term := x\<rparr>)) \<and>
      sweep_next_solution ((snd (sweep_cut_query w))\<lparr>o_term := x\<rparr>) =
        (None, signal ''No current query'' ((snd (sweep_cut_query w))\<lparr>o_term := x\<rparr>)))"
proof -
  have keep: "o_term (snd (sweep_next_solution w)) = o_term w"
      "o_term (snd (sweep_cut_query w)) = o_term w"
      "o_term (snd (sweep_close_query w)) = o_term w"
    by (simp_all add: sweep_next_solution_def sweep_cut_query_def sweep_close_query_def
        engine_defs term_to_value_ref_frame Let_def split_beta
        split: option.splits list.splits outcome.splits)
  have written: "current_query w = None \<and>
      (\<exists>d. current_query (snd (sweep_open_query arg0 arg1 arg2 arg3 w)) = Some d \<and>
           o_term (snd (sweep_open_query arg0 arg1 arg2 arg3 w)) = q_args d + 1)"
    if "o_term (snd (sweep_open_query arg0 arg1 arg2 arg3 w)) \<noteq> o_term w"
    using that
    by (auto simp: sweep_open_query_def cleanup_def PL_current_query_def PL_open_query_def
        signal_def Let_def split_beta split: option.splits if_splits)
  have cut: "sweep_cut_query (w\<lparr>o_term := x\<rparr>) =
     (fst (sweep_cut_query w), (snd (sweep_cut_query w))\<lparr>o_term := x\<rparr>)"
    by (simp add: sweep_cut_query_def engine_defs term_to_value_ref_def Let_def split_beta
        split: option.splits)
  have close: "sweep_close_query (w\<lparr>o_term := x\<rparr>) =
     (fst (sweep_close_query w), (snd (sweep_close_query w))\<lparr>o_term := x\<rparr>)"
    by (simp add: sweep_close_query_def engine_defs term_to_value_ref_def Let_def split_beta
        split: option.splits)
  have step: "sweep_next_solution (w\<lparr>o_term := x\<rparr>) =
        (fst (sweep_next_solution w), (snd (sweep_next_solution w))\<lparr>o_term := x\<rparr>)"
    if "current_query w = None"
    using that by (simp add: sweep_next_solution_def engine_defs)
  have open1: "fst (sweep_open_query arg0 arg1 arg2 arg3 (w\<lparr>o_term := x\<rparr>)) =
     fst (sweep_open_query arg0 arg1 arg2 arg3 w)"
    by (simp add: sweep_open_query_def cleanup_def Let_def split_beta split: option.splits)
  have open2: "(snd (sweep_open_query arg0 arg1 arg2 arg3 (w\<lparr>o_term := x\<rparr>)))\<lparr>o_term := y\<rparr> =
     (snd (sweep_open_query arg0 arg1 arg2 arg3 w))\<lparr>o_term := y\<rparr>"
    by (simp add: sweep_open_query_def cleanup_def PL_current_query_def PL_open_query_def
        signal_def Let_def split_beta split: option.splits)
  have stale: "sweep_next_solution ((snd (sweep_close_query w))\<lparr>o_term := x\<rparr>) =
        (None, signal ''No current query'' ((snd (sweep_close_query w))\<lparr>o_term := x\<rparr>)) \<and>
      sweep_next_solution ((snd (sweep_cut_query w))\<lparr>o_term := x\<rparr>) =
        (None, signal ''No current query'' ((snd (sweep_cut_query w))\<lparr>o_term := x\<rparr>))"
    if "current_query w = Some d" for d
    using that
    by (simp add: sweep_next_solution_def sweep_cut_query_def sweep_close_query_def engine_defs
        term_to_value_ref_frame split_beta split: option.splits)
  show ?thesis
    using keep written cut close step open1 open2 stale by blast
qed

theorem output_reference_discipline_witness:
  "current_query demo_world = Some demo_query \<and>
   o_term (snd (sweep_close_query demo_world)) = 2 \<and>
   fst (sweep_next_solution ((snd (sweep_close_query demo_world))\<lparr>o_term := 99\<rparr>)) = None \<and>
   current_query (fresh_world (\<lambda>n. True) (\<lambda>ctx p t. ([Solution t], None))) = None \<and>
   o_term (fresh_world (\<lambda>n. True) (\<lambda>ctx p t. ([Solution t], None))) = 0 \<and>
   o_term (snd (sweep_open_query (EString ''user'') (EString ''lists'') (EString ''member'')
                  (EInteger 1) (fresh_world (\<lambda>n. True) (\<lambda>ctx p t. ([Solution t], None))))) = 2 \<and>
   o_term (snd (sweep_open_query (EString ''user'') (EString ''lists'') (EString ''member'')
                  (ESymbol ''t'') (fresh_world (\<lambda>n. True) (\<lambda>ctx p t. ([Solution t], None))))) = 0"
  using output_reference_discipline [of demo_world "EString ''user''" "EString ''lists''" "EString ''member''" "EInteger 1" 99 0]
    output_reference_discipline [of "fresh_world (\<lambda>n. True) (\<lambda>ctx p t. ([Solution t], None))"
       "EString ''user''" "EString ''lists''" "EString ''member''" "EInteger 1" 99 0]
  by (simp add: demo_world_def demo_query_def fresh_world_def sweep_open_query_def
      sweep_close_query_def sweep_cut_query_def sweep_next_solution_def cleanup_def free_buffer_def
      PL_new_term_refs_def cstring_def PL_new_atom_def PL_new_module_def PL_predicate_def
      engine_defs eval_defs Let_def)

section \<open>Further properties\<close>

text \<open>
  X1. The leaves of the dispatch of \<open>term_to_value\<close>: a variable converts to the symbol
  \<open>variable\<close>, an atom to the cons of the symbol \<open>atom\<close> and its text as a string, a
  string to a string, an integer that fits in an \<^verbatim>\<open>int64_t\<close> to an integer (and any
  other integer to \<^verbatim>\<open>NULL\<close>), the empty list to \<open>nil\<close>; and the list
  \<open>[1,2,3]\<close> converts to \<open>(1 2 3)\<close>. None of these needs an allocation.
\<close>

theorem term_to_value_leaves:
  "fst (term_to_value Variable r) = Some (ESymbol ''variable'') \<and>
   fst (term_to_value (Atom s) r) = Some (ECons (ESymbol ''atom'') (EString s)) \<and>
   fst (term_to_value (PString s) r) = Some (EString s) \<and>
   fst (term_to_value (PInteger i) r) =
     (if - (2 ^ 63) \<le> i \<and> i < 2 ^ 63 then Some (EInteger (word_of_int i)) else None) \<and>
   fst (term_to_value PNil r) = Some (ESymbol ''nil'') \<and>
   fst (term_to_value (ListPair (PInteger 1) (ListPair (PInteger 2) (ListPair (PInteger 3) PNil))) r) =
     Some (ECons (EInteger 1) (ECons (EInteger 2) (ECons (EInteger 3) (ESymbol ''nil''))))"
  by (simp add: term_to_value_conversion_result(1) PL_get_int64_def)

text \<open>
  X2. \<open>value_to_term\<close> on a symbol: \<open>nil\<close> becomes the empty list; any other symbol is
  of an unsupported type, and the conversion returns \<open>-1\<close> and leaves the runtime, the
  target reference included, as it was. A cons cell with such a car fails in the same
  way, without its cdr being converted.
\<close>

theorem value_to_term_unsupported:
  "value_to_term (ESymbol n) t r = (if n = ''nil'' then (1, put_term t PNil r) else (- 1, r)) \<and>
   fst (value_to_term (ECons (ESymbol ''t'') d) t r) = - 1 \<and>
   term_store (snd (value_to_term (ECons (ESymbol ''t'') d) t r)) t =
     (if next_ref r \<le> t \<and> t \<le> next_ref r + 1 then Variable else term_store r t)"
  by (simp add: value_to_term.simps value_to_term_list.simps is_not_nil_def PL_put_nil_def
      PL_new_term_ref_def ecar_def Let_def)

lemma estring_to_cstring_live:
  "live (snd (estring_to_cstring v r)) =
     (case fst (estring_to_cstring v r) of None \<Rightarrow> live r | Some (buf, len) \<Rightarrow> nat len # live r)"
  by (simp add: estring_to_cstring_def rt_defs copy_string_contents_def
      copy_string_contents_probe_def split: option.splits)

lemma estring_to_pstring_live: "live (snd (estring_to_pstring v t r)) = live r"
  using estring_to_cstring_live[of v r]
  by (cases "estring_to_cstring v r")
     (auto simp: estring_to_pstring_def PL_put_string_nchars_def put_term_def free_def
       split: option.splits)

lemma value_to_term_live:
  "live (snd (value_to_term v t r)) = live r"
  "live (snd (value_to_term_list v t r)) = live r"
proof (induction v t r and v t r rule: value_to_term_value_to_term_list.induct)
  case (1 v t r)
  show ?case
    using 1 estring_to_pstring_live[of v t r]
    by (simp add: value_to_term.simps value_to_term_string_def value_to_term_integer_def
        PL_put_int64_def PL_put_nil_def put_term_def)
next
  case (2 v t r)
  obtain head r1 where n1: "PL_new_term_ref r = (head, r1)" by (cases "PL_new_term_ref r")
  obtain tail r2 where n2: "PL_new_term_ref r1 = (tail, r2)" by (cases "PL_new_term_ref r1")
  have f2: "live r2 = live r"
    using n1 n2 by (auto simp: rt_defs)
  obtain ra r3 where e1: "value_to_term (ecar v) head r2 = (ra, r3)"
    by (cases "value_to_term (ecar v) head r2")
  have ih1: "live r3 = live r"
    using 2(1)[OF n1[symmetric] n2[symmetric] refl refl] e1 f2 by simp
  obtain rd r4 where e2: "value_to_term (ecdr v) tail r3 = (rd, r4)"
    by (cases "value_to_term (ecdr v) tail r3")
  have ih2: "\<not> ra < 0 \<Longrightarrow> live r4 = live r3"
    using 2(2)[OF n1[symmetric] n2[symmetric] refl refl e1[symmetric]] e2 by simp
  have unfold: "value_to_term_list v t r =
      (if ra < 0 then (ra, r3) else if rd < 0 then (rd, r4) else PL_cons_list t head tail r4)"
    using n1 n2 e1 e2 by (simp add: value_to_term_list.simps[of v t r] Let_def)
  show ?case
    using unfold ih1 ih2 by (auto simp: PL_cons_list_def put_term_def)
qed

text \<open>
  X3. The buffers of the string transfer never outlive a call: \<open>value_to_term\<close> and
  \<open>sweep_open_query\<close> leave the list of live buffers as they found it, on success and on
  every failure.
\<close>

theorem open_query_releases_buffers:
  "live (snd (value_to_term v t r)) = live r \<and>
   live (rt (snd (sweep_open_query arg0 arg1 arg2 arg3 w))) = live (rt w)"
proof -
  obtain a r0 where n: "PL_new_term_refs 2 (rt w) = (a, r0)" by (cases "PL_new_term_refs 2 (rt w)")
  have l0: "live r0 = live (rt w)" using n by (auto simp: PL_new_term_refs_def)
  obtain c r1 where e0: "estring_to_cstring arg0 r0 = (c, r1)" by (cases "estring_to_cstring arg0 r0")
  obtain m r2 where e1: "estring_to_cstring arg1 r1 = (m, r2)" by (cases "estring_to_cstring arg1 r1")
  obtain f r3 where e2: "estring_to_cstring arg2 r2 = (f, r3)" by (cases "estring_to_cstring arg2 r2")
  obtain i r4 where e3: "value_to_term arg3 (a + 0) r3 = (i, r4)" by (cases "value_to_term arg3 (a + 0) r3")
  have l1: "live r1 = (case c of None \<Rightarrow> live r0 | Some (buf, len) \<Rightarrow> nat len # live r0)"
    using estring_to_cstring_live[of arg0 r0] e0 by simp
  have l2: "live r2 = (case m of None \<Rightarrow> live r1 | Some (buf, len) \<Rightarrow> nat len # live r1)"
    using estring_to_cstring_live[of arg1 r1] e1 by simp
  have l3: "live r3 = (case f of None \<Rightarrow> live r2 | Some (buf, len) \<Rightarrow> nat len # live r2)"
    using estring_to_cstring_live[of arg2 r2] e2 by simp
  have l4: "live r4 = live r3"
    using value_to_term_live(1)[of arg3 "a + 0" r3] e3 by simp
  have "live (rt (snd (sweep_open_query arg0 arg1 arg2 arg3 w))) = live (rt w)"
    using n e0 e1 e2 e3 l0 l1 l2 l3 l4
    by (auto simp: sweep_open_query_def cleanup_def free_buffer_def free_def PL_current_query_def
        PL_open_query_def signal_def ethrow_def Let_def split_beta split: option.splits)
  then show ?thesis using value_to_term_live(1) by simp
qed

lemma cstring_terminated: "cstring (s @ [CHR 0x00]) = cstring s"
  unfolding cstring_def by (induction s) simp_all

text \<open>
  X4. A successful open. With no query open, three strings as names, a representable
  input value and an allocator that serves the buffers, \<open>sweep_open_query\<close> returns \<open>t\<close>,
  signals nothing, and leaves a query open: its first argument reference denotes the
  term of the input value, its second one is unbound and recorded in \<^verbatim>\<open>o\<close>, and the
  predicate and the context module are named by the strings (read as C strings, up to
  their first zero byte).
\<close>

theorem open_query_success:
  assumes "current_query w = None" and "representable v" and "\<forall>n. can_alloc (rt w) n"
  shows "fst (sweep_open_query (EString c) (EString m) (EString f) v w) = Some (ESymbol ''t'') \<and>
         signalled (rt (snd (sweep_open_query (EString c) (EString m) (EString f) v w))) =
           signalled (rt w) \<and>
         (\<exists>d. current_query (snd (sweep_open_query (EString c) (EString m) (EString f) v w)) = Some d \<and>
              o_term (snd (sweep_open_query (EString c) (EString m) (EString f) v w)) = q_args d + 1 \<and>
              q_args d = next_ref (rt w) \<and>
              q_context d = cstring c \<and>
              q_predicate d = (cstring f, 2, cstring m) \<and>
              term_store (rt (snd (sweep_open_query (EString c) (EString m) (EString f) v w)))
                (q_args d) = engine_term v \<and>
              term_store (rt (snd (sweep_open_query (EString c) (EString m) (EString f) v w)))
                (q_args d + 1) = Variable)"
proof -
  obtain a r0 where n: "PL_new_term_refs 2 (rt w) = (a, r0)" by (cases "PL_new_term_refs 2 (rt w)")
  have f0: "a = next_ref (rt w)" "signalled r0 = signalled (rt w)" "\<forall>n. can_alloc r0 n"
      "term_store r0 (a + 1) = Variable" "next_ref r0 = a + 2"
    using n assms(3) by (auto simp: PL_new_term_refs_def)
  let ?r1 = "r0\<lparr>live := Suc (length c) # live r0\<rparr>"
  let ?r2 = "?r1\<lparr>live := Suc (length m) # live ?r1\<rparr>"
  let ?r3 = "?r2\<lparr>live := Suc (length f) # live ?r2\<rparr>"
  have e0: "estring_to_cstring (EString c) r0 = (Some (c @ [CHR 0x00], int (length c) + 1), ?r1)"
    using f0(3) by (simp add: estring_to_cstring_ok)
  have e1: "estring_to_cstring (EString m) ?r1 = (Some (m @ [CHR 0x00], int (length m) + 1), ?r2)"
    using f0(3) by (simp add: estring_to_cstring_ok)
  have e2: "estring_to_cstring (EString f) ?r2 = (Some (f @ [CHR 0x00], int (length f) + 1), ?r3)"
    using f0(3) by (simp add: estring_to_cstring_ok)
  have a3: "\<forall>n. can_alloc ?r3 n" using f0(3) by simp
  obtain i r4 where e3: "value_to_term v (a + 0) ?r3 = (i, r4)"
    by (cases "value_to_term v (a + 0) ?r3")
  have conv: "i = 1" "term_store r4 a = engine_term v" "signalled r4 = signalled (rt w)"
    using value_to_term_engine_term(1)[OF assms(2) a3, of "a + 0"] e3 f0(2) by simp_all
  have keep: "term_store r4 (a + 1) = Variable"
    using value_to_term_frame(1)[of ?r3 v "a + 0"] e3 f0(4,5) by simp
  show ?thesis
    using assms(1) n e0 e1 e2 e3 conv keep f0(1)
    by (simp add: cstring_terminated sweep_open_query_def cleanup_def free_buffer_def free_def PL_current_query_def
        PL_open_query_def PL_new_atom_def PL_new_module_def PL_predicate_def et_def intern_def
        Let_def split_beta)
qed

theorem open_query_success_witness:
  "current_query (fresh_world (\<lambda>n. True) (\<lambda>ctx p t. ([Solution t], None))) = None \<and>
   representable (EInteger 1) \<and>
   fst (sweep_open_query (EString ''user'') (EString ''lists'') (EString ''member'') (EInteger 1)
          (fresh_world (\<lambda>n. True) (\<lambda>ctx p t. ([Solution t], None)))) = Some (ESymbol ''t'') \<and>
   fst (sweep_next_solution (snd (sweep_open_query (EString ''user'') (EString ''lists'')
          (EString ''member'') (EInteger 1)
          (fresh_world (\<lambda>n. True) (\<lambda>ctx p t. ([Solution t], None)))))) =
     Some (ECons (ESymbol ''t'') (EInteger 1))"
  using open_query_success [of "fresh_world (\<lambda>n. True) (\<lambda>ctx p t. ([Solution t], None))"
      "EInteger 1" "''user''" "''lists''" "''member''"]
  by (simp add: fresh_world_def sweep_open_query_def sweep_next_solution_def term_to_value_ref_def
      cleanup_def free_buffer_def PL_new_term_refs_def cstring_def PL_new_atom_def
      PL_new_module_def PL_predicate_def engine_defs eval_defs Let_def)

lemma term_to_value_frame:
  "next_ref r \<le> next_ref (snd (term_to_value t r)) \<and>
   (\<forall>x. x < next_ref r \<longrightarrow> term_store (snd (term_to_value t r)) x = term_store r x)"
  "next_ref r \<le> next_ref (snd (term_to_value_list t r)) \<and>
   (\<forall>x. x < next_ref r \<longrightarrow> term_store (snd (term_to_value_list t r)) x = term_store r x)"
  "next_ref r \<le> next_ref (snd (term_to_value_compound t r)) \<and>
   (\<forall>x. x < next_ref r \<longrightarrow> term_store (snd (term_to_value_compound t r)) x = term_store r x)"
  "next_ref r \<le> next_ref (snd (term_to_value_args arg ts r)) \<and>
   (\<forall>x. x < next_ref r \<longrightarrow> x \<noteq> arg \<longrightarrow>
        term_store (snd (term_to_value_args arg ts r)) x = term_store r x)"
proof (induction t r and t r and t r and arg ts r
      rule: term_to_value_term_to_value_list_term_to_value_compound_term_to_value_args.induct)
  case (1 t r)
  then show ?case
    by (cases t) (simp_all add: leaf_defs term_to_value.simps)
next
  case (2 ph_term pt_term r)
  obtain ph r1 where n1: "PL_new_term_ref r = (ph, r1)" by (cases "PL_new_term_ref r")
  obtain pt r2 where n2: "PL_new_term_ref r1 = (pt, r2)" by (cases "PL_new_term_ref r1")
  let ?r2 = "put_term pt pt_term (put_term ph ph_term r2)"
  have f2: "next_ref ?r2 = Suc (Suc (next_ref r))"
      "\<forall>x. x < next_ref r \<longrightarrow> term_store ?r2 x = term_store r x"
    using n1 n2 by (auto simp: rt_defs)
  obtain vh r3 where e1: "term_to_value ph_term ?r2 = (vh, r3)"
    by (cases "term_to_value ph_term ?r2")
  have h1: "next_ref ?r2 \<le> next_ref r3"
      "\<forall>x. x < next_ref ?r2 \<longrightarrow> term_store r3 x = term_store ?r2 x"
    using 2(1)[OF n1[symmetric] n2[symmetric]] e1 by simp_all
  obtain vt r4 where e2: "term_to_value pt_term r3 = (vt, r4)"
    by (cases "term_to_value pt_term r3")
  have h2: "next_ref r3 \<le> next_ref r4"
      "\<forall>x. x < next_ref r3 \<longrightarrow> term_store r4 x = term_store r3 x"
    using 2(2)[OF n1[symmetric] n2[symmetric] e1[symmetric]] e2 by simp_all
  have "term_to_value_list (ListPair ph_term pt_term) r = (econs vh vt, r4)"
    using n1 n2 e1 e2 by simp
  then show ?case using f2 h1 h2 by auto
next
  case (4 name args r)
  obtain arg r1 where n: "PL_new_term_ref r = (arg, r1)" by (cases "PL_new_term_ref r")
  let ?n = "vals_bytes sizeof_emacs_value (length args)"
  have f1: "arg = next_ref r" "next_ref r1 = Suc (next_ref r)"
      "\<forall>x. x < next_ref r \<longrightarrow> term_store r1 x = term_store r x" "can_alloc r1 = can_alloc r"
    using n by (auto simp: rt_defs)
  show ?case
  proof (cases "can_alloc r ?n")
    case False
    then have "malloc ?n r1 = (False, r1)" using f1 by (simp add: rt_defs)
    then show ?thesis using n f1 by (simp add: ethrow_def)
  next
    case True
    then obtain r2 where m: "malloc ?n r1 = (True, r2)"
      and f2: "next_ref r2 = next_ref r1" "term_store r2 = term_store r1"
      using f1 by (auto simp: rt_defs)
    obtain vals r3 where e: "term_to_value_args arg args r2 = (vals, r3)"
      by (cases "term_to_value_args arg args r2")
    have ih: "next_ref r2 \<le> next_ref r3"
        "\<forall>x. x < next_ref r2 \<longrightarrow> x \<noteq> arg \<longrightarrow> term_store r3 x = term_store r2 x"
      using 4(1)[OF n[symmetric] m[symmetric] refl] e by simp_all
    have "term_to_value_compound (Compound name args) r =
        (econs (intern ''compound'') (funcall_list (make_string name (length name) # vals)), r3)"
      using n m e by simp
    then show ?thesis using ih f1 f2 by auto
  qed
next
  case (7 arg a as r)
  let ?r0 = "put_term arg a r"
  have f0: "next_ref ?r0 = next_ref r"
      "\<forall>x. x \<noteq> arg \<longrightarrow> term_store ?r0 x = term_store r x"
    by (simp_all add: rt_defs)
  obtain v r1 where e1: "term_to_value a ?r0 = (v, r1)" by (cases "term_to_value a ?r0")
  have h1: "next_ref ?r0 \<le> next_ref r1"
      "\<forall>x. x < next_ref ?r0 \<longrightarrow> term_store r1 x = term_store ?r0 x"
    using 7(1) e1 by simp_all
  obtain vs r2 where e2: "term_to_value_args arg as r1 = (vs, r2)"
    by (cases "term_to_value_args arg as r1")
  have h2: "next_ref r1 \<le> next_ref r2"
      "\<forall>x. x < next_ref r1 \<longrightarrow> x \<noteq> arg \<longrightarrow> term_store r2 x = term_store r1 x"
    using 7(2)[OF e1[symmetric]] e2 by simp_all
  show ?case using e1 e2 f0 h1 h2 by auto
qed (auto simp: rt_defs)

text \<open>
  X5. \<open>term_to_value\<close> writes only into references it creates: every reference that
  exists when it is called denotes the same term afterwards. In particular, in
  \<open>term_to_value_list\<close> the reference of the tail still denotes the tail after the head
  has been converted, so converting the subterm is converting what the reference
  denotes.
\<close>

theorem term_to_value_keeps_references:
  "(\<forall>x. x < next_ref r \<longrightarrow> term_store (snd (term_to_value t r)) x = term_store r x) \<and>
   term_store
     (snd (term_to_value ph_term
        (put_term (Suc (next_ref r)) pt_term (put_term (next_ref r) ph_term
           (snd (PL_new_term_ref (snd (PL_new_term_ref r))))))))
     (Suc (next_ref r)) = pt_term"
proof -
  let ?r2 = "put_term (Suc (next_ref r)) pt_term (put_term (next_ref r) ph_term
           (snd (PL_new_term_ref (snd (PL_new_term_ref r)))))"
  have "Suc (next_ref r) < next_ref ?r2" "term_store ?r2 (Suc (next_ref r)) = pt_term"
    by (simp_all add: rt_defs)
  then show ?thesis
    using term_to_value_frame(1)[of ?r2 ph_term] term_to_value_frame(1)[of r t] by simp
qed

theorem term_to_value_keeps_references_witness:
  "(1::nat) < next_ref ((fresh_runtime (\<lambda>n. True))\<lparr>next_ref := 3\<rparr>) \<and>
   term_store (snd (term_to_value (Compound ''f'' [ListPair (PInteger 1) PNil])
      ((fresh_runtime (\<lambda>n. True))\<lparr>next_ref := 3\<rparr>))) 1 = Variable"
  using term_to_value_keeps_references
    [of "(fresh_runtime (\<lambda>n. True))\<lparr>next_ref := 3\<rparr>" "Compound ''f'' [ListPair (PInteger 1) PNil]"]
  by (simp add: fresh_runtime_def)

lemma size_argument: "a \<in> set args \<Longrightarrow> size a < size (Compound f args)"
  by (induction args) auto

lemma term_to_value_args_at_loop:
  assumes rec: "\<And>x s. x < next_ref s \<Longrightarrow> term_store s x \<in> set args \<Longrightarrow>
            rec x s = Some (term_to_value (term_store s x) s)"
  shows "term_store r t = Compound f args \<Longrightarrow> t < next_ref r \<Longrightarrow> arg < next_ref r \<Longrightarrow>
         t \<noteq> arg \<Longrightarrow> n + k = length args \<Longrightarrow>
         term_to_value_args_at rec k (Suc n) t arg r = Some (term_to_value_args arg (drop n args) r)"
proof (induction k arbitrary: n r)
  case 0
  then show ?case by simp
next
  case (Suc k)
  have n: "n < length args" using Suc.prems(5) by simp
  let ?a = "args ! n"
  let ?r' = "put_term arg ?a r"
  have get: "PL_get_arg (Suc n) (term_store r t) = Some ?a"
    using Suc.prems(1) n by (simp add: PL_get_arg_def)
  have d: "drop n args = ?a # drop (Suc n) args"
    using n by (simp add: Cons_nth_drop_Suc)
  have r': "arg < next_ref ?r'" "term_store ?r' arg = ?a" "term_store ?r' t = Compound f args"
      "t < next_ref ?r'"
    using Suc.prems(1-4) by (simp_all add: put_term_def)
  have call: "rec arg ?r' = Some (term_to_value ?a ?r')"
    using rec[of arg ?r'] r'(1,2) n by simp
  obtain v r1 where e: "term_to_value ?a ?r' = (v, r1)" by (cases "term_to_value ?a ?r'")
  have fr: "next_ref ?r' \<le> next_ref r1" "term_store r1 t = term_store ?r' t"
    using term_to_value_frame(1)[of ?r' ?a] e r'(4) by simp_all
  have "term_to_value_args_at rec k (Suc (Suc n)) t arg r1 =
      Some (term_to_value_args arg (drop (Suc n) args) r1)"
    using Suc.IH[of r1 "Suc n"] fr r' Suc.prems(4,5) by simp
  then show ?case
    using get call e d by (simp add: split_beta)
qed

text \<open>
  X6. Read through references, as the source reads it, the conversion of a reference
  returns, with fuel beyond the size of the term the reference denotes, exactly what
  \<open>term_to_value\<close> returns on that term: the same value and the same runtime.
\<close>

theorem term_to_value_reads_references:
  "t < next_ref r \<Longrightarrow> size (term_store r t) < fuel \<Longrightarrow>
     term_to_value_at fuel t r = Some (term_to_value (term_store r t) r)"
proof (induction fuel arbitrary: t r)
  case 0
  then show ?case by simp
next
  case (Suc fuel)
  show ?case
  proof (cases "term_store r t")
    case (ListPair head tail)
    obtain ph r1 where n1: "PL_new_term_ref r = (ph, r1)" by (cases "PL_new_term_ref r")
    obtain pt r2 where n2: "PL_new_term_ref r1 = (pt, r2)" by (cases "PL_new_term_ref r1")
    let ?r2 = "put_term pt tail (put_term ph head r2)"
    have f2: "term_store r2 t = ListPair head tail" "ph < next_ref ?r2" "pt < next_ref ?r2"
        "term_store ?r2 ph = head" "term_store ?r2 pt = tail"
      using n1 n2 ListPair Suc.prems(1) by (auto simp: rt_defs)
    have sz: "size head < fuel" "size tail < fuel"
      using Suc.prems(2) ListPair by simp_all
    have c1: "term_to_value_at fuel ph ?r2 = Some (term_to_value head ?r2)"
      using Suc.IH[of ph ?r2] f2 sz by simp
    obtain vh r3 where e1: "term_to_value head ?r2 = (vh, r3)" by (cases "term_to_value head ?r2")
    have fr: "next_ref ?r2 \<le> next_ref r3" "term_store r3 pt = tail"
      using term_to_value_frame(1)[of ?r2 head] e1 f2 by simp_all
    have c2: "term_to_value_at fuel pt r3 = Some (term_to_value tail r3)"
      using Suc.IH[of pt r3] fr f2(3) sz by simp
    obtain vt r4 where e2: "term_to_value tail r3 = (vt, r4)" by (cases "term_to_value tail r3")
    show ?thesis
      using ListPair n1 n2 f2(1) c1 c2 e1 e2
      by (simp add: term_to_value.simps term_to_value_list_at_def PL_get_list_def)
  next
    case (Compound f args)
    obtain arg r1 where n: "PL_new_term_ref r = (arg, r1)" by (cases "PL_new_term_ref r")
    let ?n = "vals_bytes sizeof_emacs_value (length args)"
    have f1: "term_store r1 t = Compound f args" "t < next_ref r1" "arg < next_ref r1" "t \<noteq> arg"
      using n Compound Suc.prems(1) by (auto simp: rt_defs)
    have rec: "term_to_value_at fuel x s = Some (term_to_value (term_store s x) s)"
      if "x < next_ref s" "term_store s x \<in> set args" for x s
    proof -
      have "size (term_store s x) < size (Compound f args)"
        using size_argument[OF that(2)] .
      then show ?thesis using Suc.IH[OF that(1)] Suc.prems(2) Compound by simp
    qed
    show ?thesis
    proof (cases "can_alloc r ?n")
      case False
      then have "malloc ?n r1 = (False, r1)" using n by (auto simp: rt_defs)
      then show ?thesis
        using Compound n f1(1)
        by (simp add: term_to_value.simps term_to_value_compound_at_def
            PL_get_compound_name_arity_def)
    next
      case True
      then obtain r2 where m: "malloc ?n r1 = (True, r2)"
        and f2: "term_store r2 = term_store r1" "next_ref r2 = next_ref r1"
        using n by (auto simp: rt_defs)
      have loop: "term_to_value_args_at (term_to_value_at fuel) (length args) (Suc 0) t arg r2 =
          Some (term_to_value_args arg (drop 0 args) r2)"
        using term_to_value_args_at_loop[of args "term_to_value_at fuel" r2 t f arg 0 "length args"]
          rec f1 f2 by simp
      obtain vals r3 where e: "term_to_value_args arg args r2 = (vals, r3)"
        by (cases "term_to_value_args arg args r2")
      show ?thesis
        using Compound n m f1(1) loop e
        by (simp add: term_to_value.simps term_to_value_compound_at_def
            PL_get_compound_name_arity_def)
    qed
  qed (simp_all add: term_to_value.simps)
qed

theorem term_to_value_reads_references_witness:
  "(1::nat) < next_ref (put_term 1 (Compound ''f'' [ListPair (PInteger 1) PNil, PFloat])
                   ((fresh_runtime (\<lambda>n. True))\<lparr>next_ref := 2\<rparr>)) \<and>
   size (term_store (put_term 1 (Compound ''f'' [ListPair (PInteger 1) PNil, PFloat])
                   ((fresh_runtime (\<lambda>n. True))\<lparr>next_ref := 2\<rparr>)) 1) < 10 \<and>
   map_option fst (term_to_value_at 10 1
      (put_term 1 (Compound ''f'' [ListPair (PInteger 1) PNil, PFloat])
         ((fresh_runtime (\<lambda>n. True))\<lparr>next_ref := 2\<rparr>))) =
     Some (Some (ECons (ESymbol ''compound'')
       (ECons (EString ''f'') (ECons (ECons (EInteger 1) (ESymbol ''nil''))
          (ECons (ESymbol ''blob'') (ESymbol ''nil''))))))"
  using term_to_value_reads_references
    [of 1 "put_term 1 (Compound ''f'' [ListPair (PInteger 1) PNil, PFloat])
         ((fresh_runtime (\<lambda>n. True))\<lparr>next_ref := 2\<rparr>)" 10]
  by (simp add: eval_defs)

end
